theory Spec2Isabelle
  imports Complex_Main "HOL-Library.Sublist"
begin

section \<open>JavaScript strings\<close>

text \<open>
  A JavaScript string is a sequence of UTF-16 code units. Only two operations of the
  sources look inside a string: \<open>String.prototype.trim\<close> and truthiness (a string is
  falsy exactly when it is empty).
\<close>

type_synonym js_string = "nat list"

definition js :: "string \<Rightarrow> js_string" where
  "js s = map of_char s"

text \<open>ECMAScript \<open>WhiteSpace\<close> and \<open>LineTerminator\<close> code points, as stripped by \<open>trim\<close>.\<close>

definition is_js_space :: "nat \<Rightarrow> bool" where
  "is_js_space c =
     (c = 0x09 \<or> c = 0x0A \<or> c = 0x0B \<or> c = 0x0C \<or> c = 0x0D \<or> c = 0x20 \<or> c = 0xA0
      \<or> c = 0x1680 \<or> (0x2000 \<le> c \<and> c \<le> 0x200A) \<or> c = 0x2028 \<or> c = 0x2029
      \<or> c = 0x202F \<or> c = 0x205F \<or> c = 0x3000 \<or> c = 0xFEFF)"

definition trim :: "js_string \<Rightarrow> js_string" where
  "trim s = rev (dropWhile is_js_space (rev (dropWhile is_js_space s)))"

text \<open>Truthiness of \<open>string | null | undefined\<close>: \<open>None\<close> and the empty string are falsy.\<close>

fun truthy :: "js_string option \<Rightarrow> bool" where
  "truthy None = False"
| "truthy (Some s) = (s \<noteq> [])"

section \<open>The \<open>TextType\<close> component\<close>

datatype text_prop = Single js_string | Many "js_string list"

record variable_speed =
  vs_min :: rat
  vs_max :: rat

text \<open>
  \<open>TextTypeProps\<close>: every prop but \<open>text\<close> is optional. \<open>p_rest\<close> stands for the
  remaining HTML attributes collected by \<open>...props\<close>. The callback \<open>onSentenceComplete\<close> is
  only ever called by the effects of \<open>TextTypeInner\<close> and is not part of a rendered tree.
\<close>

record text_type_props =
  p_text :: text_prop
  p_as :: "js_string option"
  p_typingSpeed :: "rat option"
  p_initialDelay :: "rat option"
  p_pauseDuration :: "rat option"
  p_deletingSpeed :: "rat option"
  p_loop :: "bool option"
  p_className :: "js_string option"
  p_showCursor :: "bool option"
  p_hideCursorWhileTyping :: "bool option"
  p_cursorCharacter :: "js_string option"
  p_cursorClassName :: "js_string option"
  p_cursorBlinkDuration :: "rat option"
  p_textColors :: "js_string list option"
  p_variableSpeed :: "variable_speed option"
  p_startOnVisible :: "bool option"
  p_reverseMode :: "bool option"
  p_rest :: "(js_string \<times> js_string) list"

text \<open>The props \<open>TextType\<close> hands to \<open>TextTypeInner\<close>, after the destructuring defaults.\<close>

record inner_props =
  i_text :: text_prop
  i_as :: js_string
  i_typingSpeed :: rat
  i_initialDelay :: rat
  i_pauseDuration :: rat
  i_deletingSpeed :: rat
  i_loop :: bool
  i_className :: js_string
  i_showCursor :: bool
  i_hideCursorWhileTyping :: bool
  i_cursorCharacter :: js_string
  i_cursorClassName :: js_string
  i_cursorBlinkDuration :: rat
  i_textColors :: "js_string list"
  i_variableSpeed :: "variable_speed option"
  i_startOnVisible :: bool
  i_reverseMode :: bool
  i_rest :: "(js_string \<times> js_string) list"

definition or_default :: "'a option \<Rightarrow> 'a \<Rightarrow> 'a" where
  "or_default v d = (case v of None \<Rightarrow> d | Some x \<Rightarrow> x)"

definition destructure :: "text_type_props \<Rightarrow> inner_props" where
  "destructure p =
     \<lparr> i_text = p_text p,
       i_as = or_default (p_as p) (js ''div''),
       i_typingSpeed = or_default (p_typingSpeed p) 50,
       i_initialDelay = or_default (p_initialDelay p) 0,
       i_pauseDuration = or_default (p_pauseDuration p) 2000,
       i_deletingSpeed = or_default (p_deletingSpeed p) 30,
       i_loop = or_default (p_loop p) True,
       i_className = or_default (p_className p) [],
       i_showCursor = or_default (p_showCursor p) True,
       i_hideCursorWhileTyping = or_default (p_hideCursorWhileTyping p) False,
       i_cursorCharacter = or_default (p_cursorCharacter p) (js ''|''),
       i_cursorClassName = or_default (p_cursorClassName p) [],
       i_cursorBlinkDuration = or_default (p_cursorBlinkDuration p) (1 / 2),
       i_textColors = or_default (p_textColors p) [],
       i_variableSpeed = p_variableSpeed p,
       i_startOnVisible = or_default (p_startOnVisible p) False,
       i_reverseMode = or_default (p_reverseMode p) False,
       i_rest = p_rest p \<rparr>"

text \<open>
  What a render returns. \<open>VText None\<close> is an \<open>undefined\<close> child, which React renders as
  nothing. \<open>VInner\<close> is a mounted \<open>TextTypeInner\<close>: the only place where the typing and
  deleting effects, the GSAP cursor blink and the cursor \<open>span\<close> live.
\<close>

datatype vnode =
    VText "js_string option"
  | VSpan (span_class: "js_string option") (span_color: js_string) (span_children: "vnode list")
  | VElement js_string js_string "(js_string \<times> js_string) list" "vnode list"
  | VInner inner_props

text \<open>
  The environment: \<open>None\<close> when \<open>window\<close> is undefined, otherwise the answer of
  \<open>window.matchMedia(q).matches\<close> for each query \<open>q\<close>.
\<close>

type_synonym environment = "(js_string \<Rightarrow> bool) option"

definition prefersReducedMotion :: "environment \<Rightarrow> bool" where
  "prefersReducedMotion env =
     (case env of None \<Rightarrow> False
      | Some matchMedia \<Rightarrow> matchMedia (js ''(prefers-reduced-motion: reduce)''))"

definition textArray :: "text_prop \<Rightarrow> js_string list" where
  "textArray t = (case t of Many ts \<Rightarrow> ts | Single s \<Rightarrow> [s])"

text \<open>\<open>xs[0]\<close>: \<open>undefined\<close> on an empty array.\<close>

definition index0 :: "'a list \<Rightarrow> 'a option" where
  "index0 xs = (case xs of [] \<Rightarrow> None | x # _ \<Rightarrow> Some x)"

text \<open>\<open>textColors[0] || 'inherit'\<close>.\<close>

definition first_color :: "js_string list \<Rightarrow> js_string" where
  "first_color cs = (if truthy (index0 cs) then the (index0 cs) else js ''inherit'')"

text \<open>
  The hook state of a component instance: the value of \<open>useMemo(..., [])\<close>. The empty
  dependency list makes React evaluate the media query at the first render of the
  instance and return the stored value at every later render. \<open>None\<close> is an instance that
  has not rendered yet.
\<close>

type_synonym text_type_instance = "bool option"

text \<open>One render of an instance: the tree returned and the hook state afterwards.\<close>

definition TextType ::
  "environment \<Rightarrow> text_type_instance \<Rightarrow> text_type_props \<Rightarrow> vnode \<times> text_type_instance" where
  "TextType env inst p =
     (let reduced = (case inst of None \<Rightarrow> prefersReducedMotion env | Some m \<Rightarrow> m);
          q = destructure p
      in (if reduced
          then VElement (i_as q) (js ''rb-text-type '' @ i_className q) (i_rest q)
                 [VSpan None (first_color (i_textColors q))
                    [VText (index0 (textArray (i_text q)))]]
          else VInner q,
          Some reduced))"

text \<open>
  The trees of successive renders of one instance, each with the environment and the
  props of its time.
\<close>

fun render_all :: "text_type_instance \<Rightarrow> (environment \<times> text_type_props) list \<Rightarrow> vnode list" where
  "render_all inst [] = []"
| "render_all inst (ep # later) =
     fst (TextType (fst ep) inst (snd ep)) # render_all (snd (TextType (fst ep) inst (snd ep))) later"

text \<open>Whether a rendered tree mounts the animated inner component.\<close>

fun mounts_inner :: "vnode \<Rightarrow> bool" where
  "mounts_inner (VText _) = False"
| "mounts_inner (VSpan _ _ cs) = list_ex mounts_inner cs"
| "mounts_inner (VElement _ _ _ cs) = list_ex mounts_inner cs"
| "mounts_inner (VInner _) = True"

text \<open>
  Whether a rendered tree shows the cursor: either a \<open>span\<close> of class
  \<open>rb-text-type__cursor\<close>, or a mounted inner component with \<open>showCursor\<close>.
\<close>

fun renders_cursor :: "vnode \<Rightarrow> bool" where
  "renders_cursor (VText _) = False"
| "renders_cursor (VSpan c _ cs) =
     ((case c of None \<Rightarrow> False | Some k \<Rightarrow> prefix (js ''rb-text-type__cursor'') k)
      \<or> list_ex renders_cursor cs)"
| "renders_cursor (VElement _ _ _ cs) = list_ex renders_cursor cs"
| "renders_cursor (VInner q) = i_showCursor q"

section \<open>The AI coach page: \<open>sendMessage\<close>\<close>

datatype role = User | Assistant

record meta =
  provider :: js_string
  model :: js_string
  used_rag :: bool

record chat_message =
  role :: role
  content :: js_string
  follow_up_questions :: "js_string list option"
  meta :: "meta option"
  timestamp :: "int option"

record coach_chat_response =
  r_conversation_id :: js_string
  r_reply :: js_string
  r_follow_up_questions :: "js_string list option"
  r_meta :: meta

record user_profile =
  age :: "rat option"
  height_cm :: "rat option"
  weight_kg :: "rat option"
  activity_level :: "js_string option"
  training_days :: "rat option"
  injuries :: "js_string option"

text \<open>Truthiness of \<open>number | undefined\<close>: \<open>undefined\<close> and \<open>0\<close> are falsy.\<close>

fun truthy_num :: "rat option \<Rightarrow> bool" where
  "truthy_num None = False"
| "truthy_num (Some n) = (n \<noteq> 0)"

definition profileComplete :: "user_profile \<Rightarrow> bool" where
  "profileComplete p =
     (truthy_num (age p) \<and> truthy_num (height_cm p) \<and> truthy_num (weight_kg p)
      \<and> truthy (activity_level p) \<and> truthy_num (training_days p))"

record request_body =
  b_message :: js_string
  b_goal :: js_string
  b_locale :: js_string
  b_conversation_id :: "js_string option"
  b_user_profile :: "user_profile option"

record http_request =
  q_url :: js_string
  q_method :: js_string
  q_content_type :: js_string
  q_authorization :: js_string
  q_body :: request_body

text \<open>A thrown value: an \<open>Error\<close> with its message, or anything else.\<close>

datatype js_exn = Error js_string | Non_error

record http_response =
  status :: nat
  resp_text :: "js_exn + js_string"
  resp_json :: "js_exn + coach_chat_response"

datatype fetch_result = Fetch_rejects js_exn | Fetch_resolves http_response

definition ok :: "http_response \<Rightarrow> bool" where
  "ok r = (200 \<le> status r \<and> status r \<le> 299)"

text \<open>
  The state \<open>sendMessage\<close> reads and writes: the React state of the component (as captured
  by the closure of the render that created the handler), the two \<open>localStorage\<close> keys it
  touches, and a log of the calls to \<open>navigate\<close> and to \<open>fetch\<close>.
\<close>

record coach_state =
  messages :: "chat_message list"
  conversationId :: "js_string option"
  profile :: user_profile
  goal :: js_string
  input :: js_string
  isLoading :: bool
  error :: "js_string option"
  userScrolledUp :: bool
  access_token :: "js_string option"
  stored_user :: "js_string option"
  navigations :: "js_string list"
  requests :: "http_request list"

definition msg_network :: js_string where
  "msg_network = [0x62e, 0x637, 0x623, 0x20, 0x641, 0x64a, 0x20, 0x627, 0x644, 0x634, 0x628,
     0x643, 0x629, 0x2e, 0x20, 0x62c, 0x631, 0x628, 0x20, 0x62a, 0x627, 0x646, 0x64a, 0x2e]"

definition msg_session :: js_string where
  "msg_session = [0x627, 0x646, 0x62a, 0x647, 0x62a, 0x20, 0x62c, 0x644, 0x633, 0x62a, 0x643,
     0x2e, 0x20, 0x633, 0x62c, 0x651, 0x644, 0x20, 0x62f, 0x62e, 0x648, 0x644, 0x20, 0x645,
     0x631, 0x629, 0x20, 0x623, 0x62e, 0x631, 0x649, 0x2e]"

definition msg_server :: js_string where
  "msg_server = [0x62e, 0x637, 0x623, 0x20, 0x641, 0x64a, 0x20, 0x627, 0x644, 0x633, 0x64a,
     0x631, 0x641, 0x631, 0x2e, 0x20, 0x62c, 0x631, 0x628, 0x20, 0x62a, 0x627, 0x646, 0x64a,
     0x20, 0x628, 0x639, 0x62f, 0x20, 0x634, 0x648, 0x64a, 0x629, 0x2e]"

definition build_request ::
  "js_string \<Rightarrow> js_string \<Rightarrow> js_string \<Rightarrow> coach_state \<Rightarrow> http_request" where
  "build_request base_url token trimmed s =
     \<lparr> q_url = base_url @ js ''/api/ai/coach/chat'',
       q_method = js ''POST'',
       q_content_type = js ''application/json'',
       q_authorization = js ''Bearer '' @ token,
       q_body = \<lparr> b_message = trimmed, b_goal = goal s, b_locale = js ''ar'',
                  b_conversation_id = (if truthy (conversationId s) then conversationId s else None),
                  b_user_profile = (if profileComplete (profile s) then Some (profile s) else None) \<rparr> \<rparr>"

text \<open>The \<open>catch\<close> block, followed by \<open>finally\<close>.\<close>

definition catch_finally :: "js_exn \<Rightarrow> coach_state \<Rightarrow> coach_state" where
  "catch_finally e s =
     s\<lparr> error := Some (case e of Error m \<Rightarrow> m | Non_error \<Rightarrow> msg_network),
        isLoading := False \<rparr>"

text \<open>
  The first \<open>AICoach\<close> component of the file. \<open>base_url\<close> is the imported constant
  \<open>BASE_URL\<close>; \<open>fetch\<close> is the network.
\<close>

definition sendMessage ::
  "js_string \<Rightarrow> (http_request \<Rightarrow> fetch_result) \<Rightarrow> js_string \<Rightarrow> coach_state \<Rightarrow> coach_state" where
  "sendMessage base_url fetch text0 s =
     (let trimmed = trim text0 in
      if trimmed = [] \<or> isLoading s then s
      else
        let s1 = s\<lparr> error := None, input := [] \<rparr> in
        if \<not> truthy (access_token s1) then s1\<lparr> navigations := navigations s1 @ [js ''/login''] \<rparr>
        else
          let token = the (access_token s1);
              userMsg = \<lparr> role = User, content = trimmed, follow_up_questions = None,
                          meta = None, timestamp = None \<rparr>;
              s2 = s1\<lparr> messages := messages s1 @ [userMsg], isLoading := True \<rparr>;
              req = build_request base_url token trimmed s;
              s3 = s2\<lparr> requests := requests s2 @ [req] \<rparr>
          in case fetch req of
               Fetch_rejects e \<Rightarrow> catch_finally e s3
             | Fetch_resolves r \<Rightarrow>
                 if status r = 401
                 then s3\<lparr> access_token := None, stored_user := None,
                          navigations := navigations s3 @ [js ''/login''], isLoading := False \<rparr>
                 else if \<not> ok r
                 then (case resp_text r of
                         Inl e \<Rightarrow> catch_finally e s3
                       | Inr detail \<Rightarrow>
                           catch_finally
                             (Error (if detail \<noteq> [] then detail else js ''Failed to reach AI Coach.'')) s3)
                 else (case resp_json r of
                         Inl e \<Rightarrow> catch_finally e s3
                       | Inr data \<Rightarrow>
                           s3\<lparr> conversationId := Some (r_conversation_id data),
                               messages := messages s3 @
                                 [\<lparr> role = Assistant, content = r_reply data,
                                    follow_up_questions = r_follow_up_questions data,
                                    meta = Some (r_meta data), timestamp = None \<rparr>],
                               isLoading := False \<rparr>))"

text \<open>
  The second \<open>AICoach\<close> component of the file: messages carry \<open>Date.now()\<close> (\<open>now\<close> before the request,
  \<open>now'\<close> after it), the
  scroll flag is cleared, a 401 also sets the error, and a status of 500 or more throws.
\<close>

definition sendMessage2 ::
  "js_string \<Rightarrow> (http_request \<Rightarrow> fetch_result) \<Rightarrow> int \<Rightarrow> int \<Rightarrow> js_string \<Rightarrow> coach_state
     \<Rightarrow> coach_state" where
  "sendMessage2 base_url fetch now now' text0 s =
     (let trimmed = trim text0 in
      if trimmed = [] \<or> isLoading s then s
      else
        let s1 = s\<lparr> error := None, input := [] \<rparr> in
        if \<not> truthy (access_token s1) then s1\<lparr> navigations := navigations s1 @ [js ''/login''] \<rparr>
        else
          let token = the (access_token s1);
              userMsg = \<lparr> role = User, content = trimmed, follow_up_questions = None,
                          meta = None, timestamp = Some now \<rparr>;
              s2 = s1\<lparr> messages := messages s1 @ [userMsg], isLoading := True,
                        userScrolledUp := False \<rparr>;
              req = build_request base_url token trimmed s;
              s3 = s2\<lparr> requests := requests s2 @ [req] \<rparr>
          in case fetch req of
               Fetch_rejects e \<Rightarrow> catch_finally e s3
             | Fetch_resolves r \<Rightarrow>
                 if status r = 401
                 then s3\<lparr> access_token := None, stored_user := None, error := Some msg_session,
                          navigations := navigations s3 @ [js ''/login''], isLoading := False \<rparr>
                 else if status r \<ge> 500 then catch_finally (Error msg_server) s3
                 else if \<not> ok r
                 then (case resp_text r of
                         Inl e \<Rightarrow> catch_finally e s3
                       | Inr detail \<Rightarrow>
                           catch_finally
                             (Error (if detail \<noteq> [] then detail else js ''Failed to reach AI Coach.'')) s3)
                 else (case resp_json r of
                         Inl e \<Rightarrow> catch_finally e s3
                       | Inr data \<Rightarrow>
                           s3\<lparr> conversationId := Some (r_conversation_id data),
                               messages := messages s3 @
                                 [\<lparr> role = Assistant, content = r_reply data,
                                    follow_up_questions = r_follow_up_questions data,
                                    meta = Some (r_meta data), timestamp = Some now' \<rparr>],
                               isLoading := False \<rparr>))"

section \<open>Articles and the diversity rerank\<close>

text \<open>
  The backend modules (\<open>recommender.py\<close>, \<open>enrichment.py\<close>, \<open>events.py\<close>,
  \<open>news_fetcher.py\<close>) are documented by the design record
  \<open>NEWS_RECOMMENDER_DESIGN.md\<close> and by \<open>SYSTEM_SPEC.md\<close> and \<open>DATA_FLOW.md\<close>. Where the
  record gives a Python listing, the definition below translates the listing.
\<close>

text \<open>
  The columns of \<open>news_articles\<close> that the pipeline and the recommender use. Instants are
  in seconds.
\<close>

record article =
  article_id :: int
  source_id :: int
  title :: string
  summary :: string
  unique_hash :: string
  content_hash :: string
  language :: string
  topics :: "string list"
  published_at :: "int option"
  quality_score :: real
  popularity_score :: real

text \<open>\<open>article.topics[0] if article.topics else 'general'\<close>\<close>

definition primary_topic :: "article \<Rightarrow> string" where
  "primary_topic a = (case topics a of [] \<Rightarrow> ''general'' | t # _ \<Rightarrow> t)"

text \<open>
  The \<open>for\<close> loop of \<open>diversify\<close>. A \<open>Counter\<close> is a total function into the naturals
  (a missing key counts 0). \<open>page_size\<close> is a free variable of the listing and is taken
  as a parameter. The two \<open>continue\<close> branches go on with the rest of the list; the
  \<open>break\<close> returns the result.
\<close>

fun diversify_loop ::
  "nat \<Rightarrow> nat \<Rightarrow> int \<Rightarrow> article list \<Rightarrow> article list \<Rightarrow> (int \<Rightarrow> nat) \<Rightarrow> (string \<Rightarrow> nat)
     \<Rightarrow> article list" where
  "diversify_loop max_per_source max_per_topic page_size [] result source_count topic_count =
     result"
| "diversify_loop max_per_source max_per_topic page_size (a # ranked) result source_count
     topic_count =
     (if source_count (source_id a) \<ge> max_per_source
      then diversify_loop max_per_source max_per_topic page_size ranked result source_count
             topic_count
      else if topic_count (primary_topic a) \<ge> max_per_topic
      then diversify_loop max_per_source max_per_topic page_size ranked result source_count
             topic_count
      else
        let result' = result @ [a];
            source_count' = source_count(source_id a := source_count (source_id a) + 1);
            topic_count' = topic_count(primary_topic a := topic_count (primary_topic a) + 1)
        in if int (length result') \<ge> page_size then result'
           else diversify_loop max_per_source max_per_topic page_size ranked result'
                  source_count' topic_count')"

definition diversify :: "article list \<Rightarrow> nat \<Rightarrow> nat \<Rightarrow> int \<Rightarrow> article list" where
  "diversify ranked max_per_source max_per_topic page_size =
     diversify_loop max_per_source max_per_topic page_size ranked [] (\<lambda>_. 0) (\<lambda>_. 0)"

section \<open>Enrichment: the quality score\<close>

text \<open>Python truthiness of \<open>str | None\<close>: \<open>None\<close> and \<open>''\<close> are falsy.\<close>

fun py_truthy :: "string option \<Rightarrow> bool" where
  "py_truthy None = False"
| "py_truthy (Some s) = (s \<noteq> [])"

text \<open>
  \<open>timedelta.days\<close>, for a difference of two instants given in seconds: the floor of the
  quotient by the length of a day.
\<close>

definition days :: "int \<Rightarrow> int" where
  "days delta = delta div 86400"

text \<open>
  Python floats are IEEE 754 doubles. A finite double is written here as a pair
  \<open>(m, e)\<close> of integers standing for \<open>m * 2 ^ e\<close>.
\<close>

type_synonym double = "int \<times> int"

definition valof :: "double \<Rightarrow> rat" where
  "valof x = (if snd x \<ge> 0 then of_int (fst x) * 2 ^ nat (snd x)
              else of_int (fst x) / 2 ^ nat (- snd x))"

text \<open>The number of binary digits of a natural number.\<close>

fun nbits :: "nat \<Rightarrow> nat" where
  "nbits n = (if n = 0 then 0 else Suc (nbits (n div 2)))"

text \<open>\<open>n / 2 ^ k\<close> rounded to the nearest integer, a tie going to the even one.\<close>

definition round_half_even :: "nat \<Rightarrow> nat \<Rightarrow> nat" where
  "round_half_even n k =
     (if k = 0 then n
      else let q = n div 2 ^ k; r = n mod 2 ^ k; h = 2 ^ (k - 1)
           in if r > h \<or> (r = h \<and> odd q) then q + 1 else q)"

text \<open>Rounding to 53 significant bits (no overflow or underflow arises in this file).\<close>

definition round53 :: "double \<Rightarrow> double" where
  "round53 x =
     (let m = fst x; b = nbits (nat \<bar>m\<bar>)
      in if b \<le> 53 then x
         else (sgn m * int (round_half_even (nat \<bar>m\<bar>) (b - 53)), snd x + int (b - 53)))"

text \<open>Float addition \<open>x + y\<close>: the exact sum, rounded.\<close>

definition fadd :: "double \<Rightarrow> double \<Rightarrow> double" where
  "fadd x y =
     (let e = min (snd x) (snd y)
      in round53 (fst x * 2 ^ nat (snd x - e) + fst y * 2 ^ nat (snd y - e), e))"

text \<open>The literal \<open>0.2\<close>: the double \<open>0x1.999999999999ap-3\<close>.\<close>

definition point_two :: double where
  "point_two = (7205759403792794, - 55)"

text \<open>
  The listing of the quality heuristic. \<open>now\<close> is the clock reading that the listing
  compares \<open>published_at\<close> with; \<open>score += 0.2\<close> is a float addition.
\<close>

definition compute_quality ::
  "int \<Rightarrow> string \<Rightarrow> string \<Rightarrow> string option \<Rightarrow> string option \<Rightarrow> int option \<Rightarrow> double" where
  "compute_quality now title0 summary0 content0 image_url published =
     (let score = (0, 0);
          score = (if length title0 > 20 then fadd score point_two else score);
          score = (if length summary0 > 100 then fadd score point_two else score);
          score = (if py_truthy image_url then fadd score point_two else score);
          score = (if py_truthy content0 \<and> length (the content0) > 500
                   then fadd score point_two else score);
          score = (if published \<noteq> None \<and> days (now - the published) < 3
                   then fadd score point_two else score)
      in score)"

text \<open>The float sum \<open>0.0 + 0.2 + ... + 0.2\<close> of \<open>k\<close> increments, added one after the other.\<close>

definition float_sum :: "nat \<Rightarrow> double" where
  "float_sum k = ((\<lambda>x. fadd x point_two) ^^ k) (0, 0)"

section \<open>The feedback ledger: \<open>POST /news/events\<close>\<close>

text \<open>The \<open>Literal\<close> of \<open>EventItem.event_type\<close>.\<close>

datatype event_type = Impression | Click | Save | Unsave | Hide | Dwell

record event_item =
  e_article_id :: int
  event_type :: event_type
  dwell_seconds :: "real option"
  session_id :: "string option"

record event_batch_response =
  accepted :: nat
  duplicates_skipped :: nat

text \<open>A row of \<open>user_events\<close>; \<open>created_at\<close> is in seconds.\<close>

record user_event =
  user_id :: int
  item :: event_item
  created_at :: int

text \<open>
  The state the endpoint works on: the \<open>user_events\<close> table and the column
  \<open>news_articles.popularity_score\<close>, by article id.
\<close>

record ledger =
  user_events :: "user_event list"
  article_popularity :: "int \<Rightarrow> real"

text \<open>A request that fails validation is answered with status 422; the error names the field.\<close>

datatype api_error = Validation_error string

text \<open>
  Modelled from the spec: the handler of \<open>events.py\<close>, which is not among the sources.
  Accepted events move the popularity score by fixed deltas: click +1.0, save +3.0,
  unsave -1.0, hide -5.0; impressions and dwells do not move it.
\<close>

fun popularity_delta :: "event_type \<Rightarrow> real" where
  "popularity_delta Click = 1"
| "popularity_delta Save = 3"
| "popularity_delta Unsave = - 1"
| "popularity_delta Hide = - 5"
| "popularity_delta Impression = 0"
| "popularity_delta Dwell = 0"

text \<open>
  Modelled from the spec: the dedup key \<open>(user, article, event kind, session)\<close>, which is
  the key with \<open>with_session\<close> set. The flow recorded in \<open>SYSTEM_SPEC.md\<close> and
  \<open>DATA_FLOW.md\<close> names the key without the session; that is the key with
  \<open>with_session\<close> unset.
\<close>

definition same_key :: "bool \<Rightarrow> int \<Rightarrow> event_item \<Rightarrow> user_event \<Rightarrow> bool" where
  "same_key with_session u e r =
     (user_id r = u \<and> e_article_id (item r) = e_article_id e
      \<and> event_type (item r) = event_type e
      \<and> (if with_session then session_id (item r) = session_id e else True))"

text \<open>
  Modelled from the spec: an event is a duplicate when the log holds an event with its
  key within the 5-minute window.
\<close>

definition is_duplicate :: "bool \<Rightarrow> int \<Rightarrow> int \<Rightarrow> ledger \<Rightarrow> event_item \<Rightarrow> bool" where
  "is_duplicate with_session u now l e =
     list_ex (\<lambda>r. same_key with_session u e r \<and> now - 300 \<le> created_at r) (user_events l)"

text \<open>
  Modelled from the spec: one event of the batch. Every event is appended to the event
  log, duplicates included; a duplicate within the window is counted but not applied to
  the popularity score, an accepted event is counted and applied.
\<close>

definition process_event ::
  "bool \<Rightarrow> int \<Rightarrow> int \<Rightarrow> ledger \<times> event_batch_response \<Rightarrow> event_item
     \<Rightarrow> ledger \<times> event_batch_response" where
  "process_event with_session u now st e =
     (let l = fst st; resp = snd st;
          logged = l\<lparr> user_events :=
                       user_events l @ [\<lparr> user_id = u, item = e, created_at = now \<rparr>] \<rparr>
      in if is_duplicate with_session u now l e
         then (logged, resp\<lparr> duplicates_skipped := duplicates_skipped resp + 1 \<rparr>)
         else
           (logged\<lparr> article_popularity := (article_popularity l)
                      (e_article_id e := article_popularity l (e_article_id e)
                                         + popularity_delta (event_type e)) \<rparr>,
            resp\<lparr> accepted := accepted resp + 1 \<rparr>))"

text \<open>
  The endpoint. \<open>EventBatch.events\<close> is declared with \<open>max_length=100\<close>: a longer list
  fails validation before the handler runs. A list within the cap goes through the
  handler, event by event.
\<close>

definition submit_events ::
  "bool \<Rightarrow> int \<Rightarrow> int \<Rightarrow> event_item list \<Rightarrow> ledger
     \<Rightarrow> (api_error + event_batch_response) \<times> ledger" where
  "submit_events with_session u now events l =
     (if length events > 100
      then (Inl (Validation_error ''events''), l)
      else
        let st = foldl (process_event with_session u now)
                   (l, \<lparr> accepted = 0, duplicates_skipped = 0 \<rparr>) events
        in (Inr (snd st), fst st))"

section \<open>Recommendation scoring\<close>

text \<open>The default weights of the ranking formula.\<close>

definition w1 :: real where "w1 = 0.30"
definition w2 :: real where "w2 = 0.25"
definition w3 :: real where "w3 = 0.20"
definition w4 :: real where "w4 = 0.15"
definition w5 :: real where "w5 = 0.10"
definition p1 :: real where "p1 = 0.50"
definition p2 :: real where "p2 = 0.20"

text \<open>
  Modelled from the spec: the scoring function of \<open>recommender.py\<close>, which is not among
  the sources. The similarity of a candidate is the cosine score of the vector pool when
  there is one, else 0.
\<close>

definition similarity :: "real option \<Rightarrow> real" where
  "similarity vector_score = (case vector_score of Some c \<Rightarrow> c | None \<Rightarrow> 0)"

text \<open>Modelled from the spec: \<open>exp(-0.1 * days_since_published)\<close>.\<close>

definition recency_decay :: "real \<Rightarrow> real" where
  "recency_decay days_old = exp (- 0.1 * days_old)"

text \<open>
  Modelled from the spec: 1.0 if any article topic intersects the user's top topics, else
  0.0.
\<close>

definition preference_match :: "string list \<Rightarrow> string list \<Rightarrow> real" where
  "preference_match article_topics user_topics =
     (if list_ex (\<lambda>t. t \<in> set user_topics) article_topics then 1 else 0)"

text \<open>
  Modelled from the spec: \<open>min(1.0, popularity_score / 100)\<close>, with the popularity score
  clamped to at least 0 before the normalisation.
\<close>

definition popularity :: "real \<Rightarrow> real" where
  "popularity pop_score = min 1 (max 0 pop_score / 100)"

text \<open>
  Modelled from the spec: the ranking formula, a fixed weighted sum of the five signals
  minus the two penalties.
\<close>

definition score ::
  "real option \<Rightarrow> real \<Rightarrow> string list \<Rightarrow> string list \<Rightarrow> real \<Rightarrow> real \<Rightarrow> real \<Rightarrow> real \<Rightarrow> real" where
  "score vector_score days_old article_topics user_topics pop_score quality
         already_seen_penalty source_fatigue_penalty =
       (w1 * similarity vector_score)
     + (w2 * recency_decay days_old)
     + (w3 * preference_match article_topics user_topics)
     + (w4 * popularity pop_score)
     + (w5 * quality)
     - (p1 * already_seen_penalty)
     - (p2 * source_fatigue_penalty)"

section \<open>The source registry\<close>

text \<open>
  Modelled from the spec: the fetch bookkeeping of \<open>news_fetcher.py\<close> and the scheduler,
  which are not among the sources. A source counts its consecutive failures; a scheduled
  run fetches the enabled sources only.
\<close>

record news_source =
  enabled :: bool
  fetch_error_count :: nat
  last_fetched_at :: "int option"
  last_error :: "string option"

datatype fetch_outcome = Fetch_ok | Fetch_failed string

definition failure_threshold :: nat where
  "failure_threshold = 5"

text \<open>
  Modelled from the spec: a fetch-level failure increments the counter, and the source is
  disabled once the counter reaches the threshold.
\<close>

definition record_failure :: "string \<Rightarrow> news_source \<Rightarrow> news_source" where
  "record_failure msg s =
     (let n = fetch_error_count s + 1 in
      s\<lparr> fetch_error_count := n, last_error := Some msg,
         enabled := (if n \<ge> failure_threshold then False else enabled s) \<rparr>)"

text \<open>
  Modelled from the spec: a success resets the counter to zero and updates the last-fetch
  timestamp.
\<close>

definition record_success :: "int \<Rightarrow> news_source \<Rightarrow> news_source" where
  "record_success now s = s\<lparr> fetch_error_count := 0, last_fetched_at := Some now \<rparr>"

text \<open>
  Modelled from the spec: what happens to a source, a scheduled run at some time with
  the outcome the fetch would have, or the operator switching the source on again. The
  second component of the state lists the times at which the source was fetched.
\<close>

datatype registry_event = Scheduled_run int fetch_outcome | Operator_enable

fun registry_step :: "news_source \<times> int list \<Rightarrow> registry_event \<Rightarrow> news_source \<times> int list" where
  "registry_step (s, fetched) (Scheduled_run now outcome) =
     (if enabled s
      then (case outcome of
              Fetch_ok \<Rightarrow> (record_success now s, fetched @ [now])
            | Fetch_failed msg \<Rightarrow> (record_failure msg s, fetched @ [now]))
      else (s, fetched))"
| "registry_step (s, fetched) Operator_enable = (s\<lparr> enabled := True \<rparr>, fetched)"

definition registry_run :: "news_source \<times> int list \<Rightarrow> registry_event list \<Rightarrow> news_source \<times> int list" where
  "registry_run st evs = foldl registry_step st evs"

section \<open>The ingestion pipeline\<close>

text \<open>
  Modelled from the spec: the staging and persisting of feed entries by
  \<open>news_fetcher.py\<close>, which is not among the sources. An entry is what the parser
  extracts from the feed; a raw item is a row of \<open>raw_feed_items\<close>.
\<close>

record feed_entry =
  entry_url :: string
  entry_title :: string
  entry_summary :: string
  entry_content :: "string option"
  entry_image :: "string option"
  entry_published :: "int option"

datatype raw_status = Pending | Processed | Duplicate | Failed

record raw_feed_item =
  raw_source_id :: int
  raw_url :: string
  url_hash :: string
  title_raw :: string
  fetched_at :: int
  raw_status :: raw_status

record enrichment =
  en_language :: string
  en_topics :: "string list"
  en_quality :: real

text \<open>
  The parts of the pipeline that the spec names without fixing them: the URL
  canonicalisation, the hash, the token-set similarity test of two titles (above 90%),
  and the enrichment of an entry, which may fail.
\<close>

record pipeline =
  canonical_url :: "string \<Rightarrow> string"
  sha256 :: "string \<Rightarrow> string"
  title_similar :: "string \<Rightarrow> string \<Rightarrow> bool"
  enrich :: "int \<Rightarrow> feed_entry \<Rightarrow> enrichment option"

record article_store =
  raw_feed_items :: "raw_feed_item list"
  news_articles :: "article list"

record run_stats =
  entries_fetched :: nat
  new_entries :: nat
  duplicate_entries :: nat
  error_entries :: nat

text \<open>
  A token-set similarity test of the kind the pipeline takes: the Jaccard index of the
  two sets of words (the runs between spaces), above 90%.
\<close>

fun split_words :: "string \<Rightarrow> string \<Rightarrow> string list" where
  "split_words cur [] = (if cur = [] then [] else [cur])"
| "split_words cur (c # cs) =
     (if c = CHR '' ''
      then (if cur = [] then split_words [] cs else cur # split_words [] cs)
      else split_words (cur @ [c]) cs)"

definition jaccard_similar :: "string \<Rightarrow> string \<Rightarrow> bool" where
  "jaccard_similar a b =
     (let ws = remdups (split_words [] a); vs = remdups (split_words [] b)
      in 10 * length (filter (\<lambda>w. w \<in> set vs) ws) > 9 * length (remdups (ws @ vs)))"

definition entry_hash :: "pipeline \<Rightarrow> feed_entry \<Rightarrow> string" where
  "entry_hash P e = sha256 P (canonical_url P (entry_url e))"

text \<open>The ingestion-level dedup key of a raw item, and the identity key of an article.\<close>

definition raw_key :: "raw_feed_item \<Rightarrow> int \<times> string" where
  "raw_key r = (raw_source_id r, url_hash r)"

definition article_key :: "article \<Rightarrow> int \<times> string" where
  "article_key a = (source_id a, unique_hash a)"

definition next_article_id :: "article list \<Rightarrow> int" where
  "next_article_id arts = foldr (\<lambda>a m. max (article_id a) m) arts 0 + 1"

text \<open>
  Modelled from the spec: the upsert into the article table, keyed by the source and the
  identity hash. An existing article whose content hash is unchanged is left alone; one
  whose content changed is updated in place (the new content hash is what flags it for
  re-embedding); otherwise a new article is inserted.
\<close>

definition upsert_article ::
  "pipeline \<Rightarrow> int \<Rightarrow> feed_entry \<Rightarrow> enrichment \<Rightarrow> article list \<Rightarrow> article list" where
  "upsert_article P src e en arts =
     (let h = entry_hash P e;
          ch = sha256 P (entry_title e @ entry_summary e
                         @ (case entry_content e of None \<Rightarrow> [] | Some c \<Rightarrow> c))
      in if list_ex (\<lambda>a. article_key a = (src, h)) arts
         then map (\<lambda>a. if article_key a = (src, h) \<and> content_hash a \<noteq> ch
                        then a\<lparr> title := entry_title e, summary := entry_summary e,
                                content_hash := ch, language := en_language en,
                                topics := en_topics en, quality_score := en_quality en \<rparr>
                        else a) arts
         else arts @ [\<lparr> article_id = next_article_id arts, source_id = src,
                        title = entry_title e, summary = entry_summary e, unique_hash = h,
                        content_hash = ch, language = en_language en, topics = en_topics en,
                        published_at = entry_published e, quality_score = en_quality en,
                        popularity_score = 0 \<rparr>])"

text \<open>
  Modelled from the spec: one entry of a fetched feed. An entry whose hash already exists
  for the source is counted as a duplicate and not reprocessed. A new entry is staged;
  if its title is a near-duplicate of an article of the same source it is marked
  \<open>duplicate\<close>, if its enrichment fails it is marked \<open>error\<close>, otherwise it is enriched,
  upserted into the article table and marked \<open>processed\<close>.
\<close>

definition ingest_entry ::
  "pipeline \<Rightarrow> int \<Rightarrow> int \<Rightarrow> article_store \<times> run_stats \<Rightarrow> feed_entry
     \<Rightarrow> article_store \<times> run_stats" where
  "ingest_entry P src now acc e =
     (let st = fst acc;
          stats = (snd acc)\<lparr> entries_fetched := entries_fetched (snd acc) + 1 \<rparr>;
          h = entry_hash P e
      in if list_ex (\<lambda>r. raw_key r = (src, h)) (raw_feed_items st)
         then (st, stats\<lparr> duplicate_entries := duplicate_entries stats + 1 \<rparr>)
         else
           let raw = \<lparr> raw_source_id = src, raw_url = canonical_url P (entry_url e),
                       url_hash = h, title_raw = entry_title e, fetched_at = now,
                       raw_status = Pending \<rparr>
           in if list_ex (\<lambda>a. source_id a = src \<and> title_similar P (title a) (entry_title e))
                   (news_articles st)
              then (st\<lparr> raw_feed_items := raw_feed_items st @ [raw\<lparr> raw_status := Duplicate \<rparr>] \<rparr>,
                    stats\<lparr> duplicate_entries := duplicate_entries stats + 1 \<rparr>)
              else (case enrich P now e of
                      None \<Rightarrow>
                        (st\<lparr> raw_feed_items := raw_feed_items st @ [raw\<lparr> raw_status := Failed \<rparr>] \<rparr>,
                         stats\<lparr> error_entries := error_entries stats + 1 \<rparr>)
                    | Some en \<Rightarrow>
                        (st\<lparr> raw_feed_items := raw_feed_items st @ [raw\<lparr> raw_status := Processed \<rparr>],
                            news_articles := upsert_article P src e en (news_articles st) \<rparr>,
                         stats\<lparr> new_entries := new_entries stats + 1 \<rparr>)))"

text \<open>Modelled from the spec: fetching and processing one payload of a source.\<close>

definition ingest ::
  "pipeline \<Rightarrow> int \<Rightarrow> int \<Rightarrow> feed_entry list \<Rightarrow> article_store \<Rightarrow> article_store \<times> run_stats" where
  "ingest P src now payload st =
     foldl (ingest_entry P src now)
       (st, \<lparr> entries_fetched = 0, new_entries = 0, duplicate_entries = 0, error_entries = 0 \<rparr>)
       payload"

section \<open>The recommender: \<open>get_feed\<close>\<close>

text \<open>
  Modelled from the spec: the vector index, a capability with three interchangeable
  backends sharing one contract. \<open>vector_store.py\<close> and \<open>embedder.py\<close> are not among the
  sources. A search answers with ranked ids and scores, or fails.
\<close>

datatype backend_failure = Load_failure | Disk_exhausted | Backend_unavailable

record vector_index =
  search :: "real list \<Rightarrow> nat \<Rightarrow> backend_failure + (int \<times> real) list"

datatype vector_backend = Local_index vector_index | Networked_index vector_index | Noop_index

text \<open>Modelled from the spec: the no-op variant always returns empty results.\<close>

definition backend_search ::
  "vector_backend \<Rightarrow> real list \<Rightarrow> nat \<Rightarrow> backend_failure + (int \<times> real) list" where
  "backend_search vb q top_k =
     (case vb of
        Noop_index \<Rightarrow> Inr []
      | Local_index ix \<Rightarrow> search ix q top_k
      | Networked_index ix \<Rightarrow> search ix q top_k)"

datatype pool = Vector_pool | Topic_pool | Trending_pool | Newest_pool

record candidate =
  cand_article :: article
  cand_pool :: pool
  cand_similarity :: "real option"

text \<open>
  Modelled from the spec: what a request works on. The embedding service (which may fail
  to load its model), the configured vector backend, the article table, the enabled flag
  of each source, and the clock.
\<close>

record feed_env =
  embed_query :: "string list \<Rightarrow> backend_failure + real list"
  backend :: vector_backend
  store :: "article list"
  source_enabled :: "int \<Rightarrow> bool"
  clock :: int

text \<open>
  Modelled from the spec: the profile the request builds for the user. The top topics,
  the language preference, the blocked keywords, the hidden articles, the impression
  records (article id and time) and the sources of the articles of the last feed.
\<close>

record reader_profile =
  top_topics :: "string list"
  language_pref :: string
  blocked_keywords :: "string list"
  hidden_articles :: "int list"
  impressions :: "(int \<times> int) list"
  last_feed_sources :: "int list"

definition top3 :: "reader_profile \<Rightarrow> string list" where
  "top3 prof = take 3 (top_topics prof)"

text \<open>An article published at most \<open>d\<close> days before \<open>now\<close>; an undated article is not.\<close>

definition within_days :: "int \<Rightarrow> int \<Rightarrow> article \<Rightarrow> bool" where
  "within_days now d a =
     (case published_at a of None \<Rightarrow> False | Some t \<Rightarrow> now - t \<le> d * 86400)"

text \<open>Insertion sort by a \<open>goes before\<close> test.\<close>

fun insert_by :: "('a \<Rightarrow> 'a \<Rightarrow> bool) \<Rightarrow> 'a \<Rightarrow> 'a list \<Rightarrow> 'a list" where
  "insert_by before x [] = [x]"
| "insert_by before x (y # ys) =
     (if before x y then x # y # ys else y # insert_by before x ys)"

definition sort_by :: "('a \<Rightarrow> 'a \<Rightarrow> bool) \<Rightarrow> 'a list \<Rightarrow> 'a list" where
  "sort_by before xs = foldr (insert_by before) xs []"

definition newer :: "article \<Rightarrow> article \<Rightarrow> bool" where
  "newer a b =
     (case published_at a of None \<Rightarrow> False
      | Some s \<Rightarrow> (case published_at b of None \<Rightarrow> True | Some t \<Rightarrow> s \<ge> t))"

definition more_popular :: "article \<Rightarrow> article \<Rightarrow> bool" where
  "more_popular a b = (popularity_score a \<ge> popularity_score b)"

definition as_candidate :: "pool \<Rightarrow> article \<Rightarrow> candidate" where
  "as_candidate p a = \<lparr> cand_article = a, cand_pool = p, cand_similarity = None \<rparr>"

text \<open>
  Modelled from the spec: the vector pool, at most 50 hits of a similarity search seeded
  by the user's topic keywords. Every failure of the embedding model or of the backend
  degrades to zero candidates.
\<close>

definition vector_pool :: "feed_env \<Rightarrow> reader_profile \<Rightarrow> candidate list" where
  "vector_pool env prof =
     (case embed_query env (top3 prof) of
        Inl _ \<Rightarrow> []
      | Inr q \<Rightarrow>
          (case backend_search (backend env) q 50 of
             Inl _ \<Rightarrow> []
           | Inr hits \<Rightarrow>
               concat (map (\<lambda>hit. map (\<lambda>a. \<lparr> cand_article = a, cand_pool = Vector_pool,
                                               cand_similarity = Some (snd hit) \<rparr>)
                                    (filter (\<lambda>a. article_id a = fst hit) (store env)))
                        (take 50 hits))))"

text \<open>
  Modelled from the spec: the three pools read from the article table. Recent articles
  matching the user's top 3 topics within 14 days (at most 30), articles ranked by
  popularity within 3 days (at most 20), and the newest articles (at most 20).
\<close>

definition topic_pool :: "feed_env \<Rightarrow> reader_profile \<Rightarrow> article list" where
  "topic_pool env prof =
     take 30 (sort_by newer
       (filter (\<lambda>a. list_ex (\<lambda>t. t \<in> set (top3 prof)) (topics a)
                    \<and> within_days (clock env) 14 a) (store env)))"

definition trending_pool :: "feed_env \<Rightarrow> article list" where
  "trending_pool env =
     take 20 (sort_by more_popular (filter (within_days (clock env) 3) (store env)))"

definition newest_pool :: "feed_env \<Rightarrow> article list" where
  "newest_pool env = take 20 (sort_by newer (store env))"

text \<open>
  Modelled from the spec: the pools are merged and deduplicated by article id; the first
  candidate of an id is kept, with the pool that produced it.
\<close>

fun dedup_by_id :: "int list \<Rightarrow> candidate list \<Rightarrow> candidate list" where
  "dedup_by_id seen [] = []"
| "dedup_by_id seen (c # cs) =
     (if article_id (cand_article c) \<in> set seen then dedup_by_id seen cs
      else c # dedup_by_id (article_id (cand_article c) # seen) cs)"

definition candidates :: "feed_env \<Rightarrow> reader_profile \<Rightarrow> candidate list" where
  "candidates env prof =
     dedup_by_id []
       (vector_pool env prof
        @ map (as_candidate Topic_pool) (topic_pool env prof)
        @ map (as_candidate Trending_pool) (trending_pool env)
        @ map (as_candidate Newest_pool) (newest_pool env))"

text \<open>
  Modelled from the spec: the filter. A candidate is removed when the user has hidden it,
  when it appeared in the user's impressions within the last 24 hours, when a blocked
  keyword occurs in its title or summary, when its source is disabled, when its language
  is not the user's, or when it is older than the freshness window. A level says which
  freshness window applies and whether the hidden and the seen tests apply.
\<close>

record filter_level =
  freshness_days :: int
  use_hidden :: bool
  use_seen :: bool

definition seen_within :: "feed_env \<Rightarrow> reader_profile \<Rightarrow> int \<Rightarrow> article \<Rightarrow> bool" where
  "seen_within env prof secs a =
     list_ex (\<lambda>i. fst i = article_id a \<and> clock env - snd i \<le> secs) (impressions prof)"

definition blocked :: "reader_profile \<Rightarrow> article \<Rightarrow> bool" where
  "blocked prof a =
     list_ex (\<lambda>kw. sublist kw (title a) \<or> sublist kw (summary a)) (blocked_keywords prof)"

definition passes :: "feed_env \<Rightarrow> reader_profile \<Rightarrow> filter_level \<Rightarrow> article \<Rightarrow> bool" where
  "passes env prof lvl a =
     ((if use_hidden lvl then article_id a \<notin> set (hidden_articles prof) else True)
      \<and> (if use_seen lvl then \<not> seen_within env prof 86400 a else True)
      \<and> \<not> blocked prof a
      \<and> source_enabled env (source_id a)
      \<and> language a = language_pref prof
      \<and> within_days (clock env) (freshness_days lvl) a)"

text \<open>
  Modelled from the spec: if filtering empties the set, the freshness window is widened to
  30 days and the seen and hidden filters are relaxed in turn, before an empty feed is
  returned.
\<close>

definition filter_levels :: "filter_level list" where
  "filter_levels =
     [\<lparr> freshness_days = 14, use_hidden = True, use_seen = True \<rparr>,
      \<lparr> freshness_days = 30, use_hidden = True, use_seen = True \<rparr>,
      \<lparr> freshness_days = 30, use_hidden = True, use_seen = False \<rparr>,
      \<lparr> freshness_days = 30, use_hidden = False, use_seen = False \<rparr>]"

fun filter_relaxing ::
  "feed_env \<Rightarrow> reader_profile \<Rightarrow> filter_level list \<Rightarrow> candidate list \<Rightarrow> candidate list" where
  "filter_relaxing env prof [] cs = []"
| "filter_relaxing env prof (lvl # lvls) cs =
     (let kept = filter (\<lambda>c. passes env prof lvl (cand_article c)) cs
      in if kept \<noteq> [] then kept else filter_relaxing env prof lvls cs)"

text \<open>
  Modelled from the spec: the score of a candidate, by the ranking formula. The seen
  penalty applies to an article in the impressions of the last 7 days, the fatigue
  penalty to a source with 3 or more articles in the last feed.
\<close>

definition age_in_days :: "feed_env \<Rightarrow> article \<Rightarrow> real" where
  "age_in_days env a =
     (case published_at a of None \<Rightarrow> 0 | Some t \<Rightarrow> real_of_int (clock env - t) / 86400)"

definition candidate_score :: "feed_env \<Rightarrow> reader_profile \<Rightarrow> candidate \<Rightarrow> real" where
  "candidate_score env prof c =
     (let a = cand_article c in
      score (cand_similarity c) (age_in_days env a) (topics a) (top3 prof) (popularity_score a)
        (quality_score a)
        (if seen_within env prof (7 * 86400) a then 1 else 0)
        (if length (filter (\<lambda>s. s = source_id a) (last_feed_sources prof)) \<ge> 3 then 1 else 0))"

text \<open>Descending score; ties are broken by the more recent publication.\<close>

definition ranks_before :: "feed_env \<Rightarrow> reader_profile \<Rightarrow> candidate \<Rightarrow> candidate \<Rightarrow> bool" where
  "ranks_before env prof c d =
     (candidate_score env prof c > candidate_score env prof d
      \<or> (candidate_score env prof c = candidate_score env prof d
          \<and> newer (cand_article c) (cand_article d)))"

definition paginate :: "int \<Rightarrow> int \<Rightarrow> 'a list \<Rightarrow> 'a list" where
  "paginate page page_size xs = take (nat page_size) (drop (nat ((page - 1) * page_size)) xs)"

record feed_page =
  items :: "article list"
  logged_impressions :: "(int \<times> nat) list"

text \<open>
  Modelled from the spec: a request, as the chain profile, candidate generation, merge,
  filter, score, sort, diversify, paginate, log impressions. The diversity walk runs
  with the caps 2 and 3 up to the end of the requested page. The explanation attached on
  request has no effect on the page and is left out.
\<close>

definition get_feed :: "feed_env \<Rightarrow> reader_profile \<Rightarrow> int \<Rightarrow> int \<Rightarrow> feed_page" where
  "get_feed env prof page page_size =
     (let filtered = filter_relaxing env prof filter_levels (candidates env prof);
          ranked = sort_by (ranks_before env prof) filtered;
          diversified = diversify (map cand_article ranked) 2 3 (page * page_size);
          shown = paginate page page_size diversified
      in \<lparr> items = shown,
           logged_impressions =
             zip (map article_id shown)
                 [nat ((page - 1) * page_size) ..< nat ((page - 1) * page_size) + length shown] \<rparr>)"

section \<open>Example values\<close>

definition hero_props :: text_type_props where
  "hero_props =
     \<lparr> p_text = Many [js ''Train smarter'', js ''Eat better''], p_as = Some (js ''h1''),
       p_typingSpeed = None, p_initialDelay = None, p_pauseDuration = None,
       p_deletingSpeed = None, p_loop = None, p_className = Some (js ''hero''),
       p_showCursor = Some True, p_hideCursorWhileTyping = None, p_cursorCharacter = None,
       p_cursorClassName = None, p_cursorBlinkDuration = None,
       p_textColors = Some [js ''#ff4d4d'', js ''#ffffff''], p_variableSpeed = None,
       p_startOnVisible = None, p_reverseMode = None, p_rest = [] \<rparr>"

definition reduce_only :: "js_string \<Rightarrow> bool" where
  "reduce_only q = (q = js ''(prefers-reduced-motion: reduce)'')"

definition empty_profile :: user_profile where
  "empty_profile = \<lparr> age = None, height_cm = None, weight_kg = None, activity_level = None,
     training_days = None, injuries = None \<rparr>"

definition busy_state :: coach_state where
  "busy_state =
     \<lparr> messages = [\<lparr> role = User, content = js ''hello'', follow_up_questions = None,
                     meta = None, timestamp = None \<rparr>],
       conversationId = None, profile = empty_profile, goal = js ''fitness'', input = [],
       isLoading = True, error = None, userScrolledUp = False,
       access_token = Some (js ''t0''), stored_user = None, navigations = [], requests = [] \<rparr>"

definition offline :: "http_request \<Rightarrow> fetch_result" where
  "offline q = Fetch_rejects Non_error"

definition sample_article :: "int \<Rightarrow> int \<Rightarrow> string list \<Rightarrow> article" where
  "sample_article i src ts =
     \<lparr> article_id = i, source_id = src, title = ''Five compound lifts'',
       summary = ''Squat and pull'', unique_hash = ''u'', content_hash = ''c'',
       language = ''en'', topics = ts, published_at = Some 0, quality_score = 0.6,
       popularity_score = 12 \<rparr>"

definition click42 :: event_item where
  "click42 = \<lparr> e_article_id = 42, event_type = Click, dwell_seconds = None,
               session_id = Some ''s1'' \<rparr>"

definition ledger0 :: ledger where
  "ledger0 = \<lparr> user_events = [\<lparr> user_id = 1, item = click42, created_at = 1000 \<rparr>],
               article_popularity = (\<lambda>_. 0)(42 := 1) \<rparr>"

definition fresh_source :: news_source where
  "fresh_source = \<lparr> enabled = True, fetch_error_count = 0, last_fetched_at = None,
                    last_error = None \<rparr>"

definition toy_pipeline :: pipeline where
  "toy_pipeline =
     \<lparr> canonical_url = takeWhile (\<lambda>c. c \<noteq> CHR ''?''), sha256 = (\<lambda>s. ''#'' @ s),
       title_similar = jaccard_similar,
       enrich = (\<lambda>now e. Some \<lparr> en_language = ''en'', en_topics = [''strength''],
                                  en_quality = 0.4 \<rparr>) \<rparr>"

definition entry :: "string \<Rightarrow> string \<Rightarrow> string \<Rightarrow> feed_entry" where
  "entry u t sm = \<lparr> entry_url = u, entry_title = t, entry_summary = sm, entry_content = None,
                    entry_image = None, entry_published = Some 0 \<rparr>"

definition squat_feed :: "feed_entry list" where
  "squat_feed =
     [entry ''https://a.example/x?utm_source=rss'' ''Squat'' ''depth'',
      entry ''https://a.example/y'' ''Pull'' ''grip'',
      entry ''https://a.example/x'' ''Squat again'' ''depth'']"

definition seeded_store :: article_store where
  "seeded_store =
     \<lparr> raw_feed_items =
         [\<lparr> raw_source_id = 1, raw_url = ''https://a.example/y'',
            url_hash = ''#https://a.example/y'', title_raw = ''Pull'', fetched_at = 5,
            raw_status = Processed \<rparr>],
       news_articles =
         [\<lparr> article_id = 1, source_id = 1, title = ''Pull'', summary = ''grip'',
            unique_hash = ''#https://a.example/y'', content_hash = ''#Pullgrip'',
            language = ''en'', topics = [''strength''], published_at = Some 0,
            quality_score = 0.4, popularity_score = 0 \<rparr>] \<rparr>"

definition twin_feed :: "feed_entry list" where
  "twin_feed =
     [entry ''https://a.example/p'' ''ab'' ''c'', entry ''https://a.example/q'' ''a'' ''bc'']"

definition empty_store :: article_store where
  "empty_store = \<lparr> raw_feed_items = [], news_articles = [] \<rparr>"

definition nutrition_article :: "string \<Rightarrow> article" where
  "nutrition_article t =
     \<lparr> article_id = 7, source_id = 1, title = t, summary = ''What the studies say'',
       unique_hash = ''u7'', content_hash = ''c7'', language = ''en'',
       topics = [''nutrition''], published_at = Some 90000, quality_score = 0.6,
       popularity_score = 50 \<rparr>"

definition reader :: reader_profile where
  "reader = \<lparr> top_topics = [''nutrition''], language_pref = ''en'',
              blocked_keywords = [''keto''], hidden_articles = [], impressions = [],
              last_feed_sources = [] \<rparr>"

definition broken_env :: feed_env where
  "broken_env =
     \<lparr> embed_query = (\<lambda>_. Inr [1]),
       backend = Local_index \<lparr> search = (\<lambda>q k. Inl Disk_exhausted) \<rparr>,
       store = [nutrition_article ''Protein timing''], source_enabled = (\<lambda>_. True),
       clock = 100000 \<rparr>"

definition keto_env :: feed_env where
  "keto_env =
     \<lparr> embed_query = (\<lambda>_. Inr [1]), backend = Noop_index,
       store = [nutrition_article ''The keto diet''], source_enabled = (\<lambda>_. True),
       clock = 100000 \<rparr>"

section \<open>Reduced motion\<close>

lemma render_all_reduced:
  "list_all (\<lambda>t. \<not> mounts_inner t \<and> \<not> renders_cursor t) (render_all (Some True) eps)"
  by (induction eps) (simp_all add: TextType_def Let_def)

text \<open>
  C9, for the preference as the instance reads it. When the environment reports
  \<open>prefers-reduced-motion: reduce\<close> at the first render of an instance, that render returns
  for every props value the container element with a single child: a \<open>span\<close> coloured
  \<open>textColors[0] || 'inherit'\<close> that holds the first phrase of \<open>text\<close>. Every later render
  of the instance, whatever the environment and the props then are, returns the tree a
  first render would. No tree of the instance mounts \<open>TextTypeInner\<close> (so no typing or
  deleting effect is ever scheduled) or shows a cursor.
\<close>

theorem TextType_reduced_motion:
  assumes "env = Some matchMedia" and "matchMedia (js ''(prefers-reduced-motion: reduce)'')"
  shows "TextType env None p =
           (VElement (or_default (p_as p) (js ''div''))
              (js ''rb-text-type '' @ or_default (p_className p) []) (p_rest p)
              [VSpan None
                 (case p_textColors p of Some (c # _) \<Rightarrow> (if c = [] then js ''inherit'' else c)
                  | _ \<Rightarrow> js ''inherit'')
                 [VText (case p_text p of Single s \<Rightarrow> Some s | Many [] \<Rightarrow> None
                         | Many (s # _) \<Rightarrow> Some s)]],
            Some True)
       \<and> TextType env' (Some True) p' = TextType env None p'
       \<and> list_all (\<lambda>t. \<not> mounts_inner t \<and> \<not> renders_cursor t)
             (render_all None ((env, p) # later))"
proof -
  have r: "prefersReducedMotion env"
    using assms by (simp add: prefersReducedMotion_def)
  have first: "TextType env None p =
           (VElement (or_default (p_as p) (js ''div''))
              (js ''rb-text-type '' @ or_default (p_className p) []) (p_rest p)
              [VSpan None
                 (case p_textColors p of Some (c # _) \<Rightarrow> (if c = [] then js ''inherit'' else c)
                  | _ \<Rightarrow> js ''inherit'')
                 [VText (case p_text p of Single s \<Rightarrow> Some s | Many [] \<Rightarrow> None
                         | Many (s # _) \<Rightarrow> Some s)]],
            Some True)"
    using r
    by (auto simp: TextType_def destructure_def Let_def or_default_def first_color_def
        index0_def textArray_def split: option.splits list.splits text_prop.splits)
  have later: "TextType env' (Some True) p' = TextType env None p'"
    using r by (simp add: TextType_def Let_def)
  have all: "list_all (\<lambda>t. \<not> mounts_inner t \<and> \<not> renders_cursor t)
             (render_all None ((env, p) # later))"
    using render_all_reduced [of later] by (simp add: first)
  show ?thesis using first later all by simp
qed

theorem TextType_reduced_motion_witness:
  "TextType (Some reduce_only) None hero_props =
     (VElement (js ''h1'') (js ''rb-text-type hero'') []
        [VSpan None (js ''#ff4d4d'') [VText (Some (js ''Train smarter''))]], Some True)
   \<and> TextType None (Some True) hero_props = TextType (Some reduce_only) None hero_props
   \<and> list_all (\<lambda>t. \<not> mounts_inner t \<and> \<not> renders_cursor t)
         (render_all None [(Some reduce_only, hero_props), (None, hero_props)])"
  using TextType_reduced_motion
          [where env = "Some reduce_only" and matchMedia = reduce_only and p = hero_props
             and env' = None and p' = hero_props and later = "[(None, hero_props)]"]
  by (simp add: reduce_only_def hero_props_def or_default_def js_def)

text \<open>
  An instance that first rendered while the preference was off keeps animating after the
  environment starts to report \<open>prefers-reduced-motion: reduce\<close>: its next render still
  mounts \<open>TextTypeInner\<close>, cursor included.
\<close>

theorem TextType_ignores_later_preference:
  "snd (TextType (Some (\<lambda>q. False)) None hero_props) = Some False
   \<and> prefersReducedMotion (Some reduce_only)
   \<and> TextType (Some reduce_only) (Some False) hero_props
       = (VInner (destructure hero_props), Some False)
   \<and> mounts_inner (fst (TextType (Some reduce_only) (Some False) hero_props))
   \<and> renders_cursor (fst (TextType (Some reduce_only) (Some False) hero_props))"
  by (simp add: TextType_def prefersReducedMotion_def reduce_only_def Let_def destructure_def
        hero_props_def or_default_def)

section \<open>The guard of \<open>sendMessage\<close>\<close>

text \<open>
  C10. When the text is empty after trimming, or when \<open>isLoading\<close> is true, \<open>sendMessage\<close>
  (in both components of the file) returns with the state untouched: the message list, the
  conversation id and the error are as before, and no request and no navigation is issued.
\<close>

theorem sendMessage_guard:
  assumes "trim text0 = [] \<or> isLoading s"
  shows "sendMessage base_url fetch text0 s = s
       \<and> sendMessage2 base_url fetch now now' text0 s = s
       \<and> messages (sendMessage base_url fetch text0 s) = messages s
       \<and> conversationId (sendMessage base_url fetch text0 s) = conversationId s
       \<and> error (sendMessage base_url fetch text0 s) = error s
       \<and> requests (sendMessage base_url fetch text0 s) = requests s
       \<and> messages (sendMessage2 base_url fetch now now' text0 s) = messages s
       \<and> conversationId (sendMessage2 base_url fetch now now' text0 s) = conversationId s
       \<and> error (sendMessage2 base_url fetch now now' text0 s) = error s
       \<and> requests (sendMessage2 base_url fetch now now' text0 s) = requests s"
proof -
  have a: "sendMessage base_url fetch text0 s = s"
    using assms by (auto simp: sendMessage_def Let_def)
  have b: "sendMessage2 base_url fetch now now' text0 s = s"
    using assms by (auto simp: sendMessage2_def Let_def)
  show ?thesis by (simp add: a b)
qed

theorem sendMessage_guard_witness:
  "(trim (js ''go'') = [] \<or> isLoading busy_state)
   \<and> sendMessage [] offline (js ''go'') busy_state = busy_state
   \<and> sendMessage2 [] offline 0 1 (js ''go'') busy_state = busy_state
   \<and> requests (sendMessage [] offline (js ''go'') busy_state) = []
   \<and> (trim [0x20, 0x0A, 0xA0] = [] \<or> isLoading (busy_state\<lparr> isLoading := False \<rparr>))
   \<and> sendMessage [] offline [0x20, 0x0A, 0xA0] (busy_state\<lparr> isLoading := False \<rparr>)
       = busy_state\<lparr> isLoading := False \<rparr>
   \<and> sendMessage2 [] offline 0 1 [0x20, 0x0A, 0xA0] (busy_state\<lparr> isLoading := False \<rparr>)
       = busy_state\<lparr> isLoading := False \<rparr>"
proof -
  have h: "trim (js ''go'') = [] \<or> isLoading busy_state"
    by (simp add: busy_state_def)
  have k: "trim [0x20, 0x0A, 0xA0] = [] \<or> isLoading (busy_state\<lparr> isLoading := False \<rparr>)"
    by (simp add: trim_def is_js_space_def)
  show ?thesis
    using h k sendMessage_guard [OF h, of "[]" offline 0 1]
          sendMessage_guard [OF k, of "[]" offline 0 1]
    by (simp add: busy_state_def)
qed

section \<open>The diversity bound\<close>

lemma count_snoc:
  "length (filter (\<lambda>x. f x = k) (xs @ [x])) =
     length (filter (\<lambda>x. f x = k) xs) + (if f x = k then 1 else 0)"
  by simp

lemma diversify_loop_admit:
  "\<lbrakk>\<not> sc (source_id a) \<ge> mps; \<not> tc (primary_topic a) \<ge> mpt\<rbrakk> \<Longrightarrow>
   diversify_loop mps mpt ps (a # ranked) result sc tc =
     (if int (length (result @ [a])) \<ge> ps then result @ [a]
      else diversify_loop mps mpt ps ranked (result @ [a])
             (sc(source_id a := sc (source_id a) + 1))
             (tc(primary_topic a := tc (primary_topic a) + 1)))"
  by (simp add: Let_def)

text \<open>
  Loop invariant for the sources: the counter holds the number of admitted articles of
  each source, and no counter exceeds the cap.
\<close>

lemma diversify_loop_source_cap:
  "\<lbrakk>\<forall>s. length (filter (\<lambda>x. source_id x = s) result) = sc s; \<forall>s. sc s \<le> mps\<rbrakk>
   \<Longrightarrow> length (filter (\<lambda>x. source_id x = s) (diversify_loop mps mpt ps ranked result sc tc))
         \<le> mps"
proof (induction ranked arbitrary: result sc tc)
  case Nil
  then show ?case by simp
next
  case (Cons a ranked)
  show ?case
  proof (cases "sc (source_id a) \<ge> mps \<or> tc (primary_topic a) \<ge> mpt")
    case True
    then show ?thesis using Cons by auto
  next
    case False
    let ?r = "result @ [a]"
    let ?sc = "sc(source_id a := sc (source_id a) + 1)"
    have 1: "\<forall>s. length (filter (\<lambda>x. source_id x = s) ?r) = ?sc s"
      using Cons.prems(1) by (simp add: count_snoc)
    have 2: "\<forall>s. ?sc s \<le> mps"
      using Cons.prems(2) False by auto
    have 3: "length (filter (\<lambda>x. source_id x = s) ?r) \<le> mps"
      using 1 2 by metis
    have nf: "\<not> sc (source_id a) \<ge> mps" "\<not> tc (primary_topic a) \<ge> mpt"
      using False by auto
    note eq = diversify_loop_admit [of mps sc a mpt tc ps ranked result, OF nf]
    show ?thesis
      unfolding eq using 3 Cons.IH [OF 1 2] by presburger
  qed
qed

lemma diversify_loop_topic_cap:
  "\<lbrakk>\<forall>t. length (filter (\<lambda>x. primary_topic x = t) result) = tc t; \<forall>t. tc t \<le> mpt\<rbrakk>
   \<Longrightarrow> length (filter (\<lambda>x. primary_topic x = t) (diversify_loop mps mpt ps ranked result sc tc))
         \<le> mpt"
proof (induction ranked arbitrary: result sc tc)
  case Nil
  then show ?case by simp
next
  case (Cons a ranked)
  show ?case
  proof (cases "sc (source_id a) \<ge> mps \<or> tc (primary_topic a) \<ge> mpt")
    case True
    then show ?thesis using Cons by auto
  next
    case False
    let ?r = "result @ [a]"
    let ?tc = "tc(primary_topic a := tc (primary_topic a) + 1)"
    have 1: "\<forall>t. length (filter (\<lambda>x. primary_topic x = t) ?r) = ?tc t"
      using Cons.prems(1) by (simp add: count_snoc)
    have 2: "\<forall>t. ?tc t \<le> mpt"
      using Cons.prems(2) False by auto
    have 3: "length (filter (\<lambda>x. primary_topic x = t) ?r) \<le> mpt"
      using 1 2 by metis
    have nf: "\<not> sc (source_id a) \<ge> mps" "\<not> tc (primary_topic a) \<ge> mpt"
      using False by auto
    note eq = diversify_loop_admit [of mps sc a mpt tc ps ranked result, OF nf]
    show ?thesis
      unfolding eq using 3 Cons.IH [OF 1 2] by presburger
  qed
qed

text \<open>The loop only appends, and what it appends is a subsequence of the list it walks.\<close>

lemma diversify_loop_subseq:
  "\<exists>zs. diversify_loop mps mpt ps ranked result sc tc = result @ zs \<and> subseq zs ranked"
proof (induction ranked arbitrary: result sc tc)
  case Nil
  then show ?case by simp
next
  case (Cons a ranked)
  show ?case
  proof (cases "sc (source_id a) \<ge> mps \<or> tc (primary_topic a) \<ge> mpt")
    case True
    then have "diversify_loop mps mpt ps (a # ranked) result sc tc
               = diversify_loop mps mpt ps ranked result sc tc" by auto
    then show ?thesis using Cons.IH [of result sc tc] by auto
  next
    case False
    show ?thesis
    proof (cases "int (length (result @ [a])) \<ge> ps")
      case True
      then have "diversify_loop mps mpt ps (a # ranked) result sc tc = result @ [a]"
        using False by (simp add: Let_def)
      then show ?thesis by auto
    next
      case full: False
      obtain zs where z: "diversify_loop mps mpt ps ranked (result @ [a])
          (sc(source_id a := sc (source_id a) + 1))
          (tc(primary_topic a := tc (primary_topic a) + 1)) = (result @ [a]) @ zs"
          "subseq zs ranked"
        using Cons.IH by blast
      have "diversify_loop mps mpt ps (a # ranked) result sc tc = result @ (a # zs)"
        using False full z(1) by (simp add: Let_def)
      then show ?thesis using z(2) by auto
    qed
  qed
qed

text \<open>
  C2. Whatever the ranked list and the page size, the page returned by \<open>diversify\<close> with
  the caps 2 and 3 holds at most 2 articles of any source and at most 3 articles of any
  primary topic. The page is a subsequence of the ranked list, which the walk leaves as it
  is; an article over a cap is passed over and the walk goes on with the articles after it.
\<close>

theorem diversify_bound:
  "length (filter (\<lambda>a. source_id a = s) (diversify ranked 2 3 page_size)) \<le> 2
   \<and> length (filter (\<lambda>a. primary_topic a = t) (diversify ranked 2 3 page_size)) \<le> 3
   \<and> subseq (diversify ranked 2 3 page_size) ranked
   \<and> (source_count (source_id a) \<ge> 2 \<or> topic_count (primary_topic a) \<ge> 3 \<longrightarrow>
        diversify_loop 2 3 page_size (a # rest) result source_count topic_count =
        diversify_loop 2 3 page_size rest result source_count topic_count)"
proof -
  have a: "length (filter (\<lambda>a. source_id a = s) (diversify ranked 2 3 page_size)) \<le> 2"
    unfolding diversify_def by (rule diversify_loop_source_cap) simp_all
  have b: "length (filter (\<lambda>a. primary_topic a = t) (diversify ranked 2 3 page_size)) \<le> 3"
    unfolding diversify_def by (rule diversify_loop_topic_cap) simp_all
  have c: "subseq (diversify ranked 2 3 page_size) ranked"
    using diversify_loop_subseq [of 2 3 page_size ranked "[]" "\<lambda>_. 0" "\<lambda>_. 0"]
    by (auto simp: diversify_def)
  show ?thesis using a b c by simp
qed

theorem diversify_bound_witness:
  "length (filter (\<lambda>a. source_id a = 7)
      (diversify [sample_article 1 7 [''strength''], sample_article 2 7 [''cardio''],
                  sample_article 3 7 [], sample_article 4 8 [''strength'']] 2 3 10)) \<le> 2
   \<and> diversify [sample_article 1 7 [''strength''], sample_article 2 7 [''cardio''],
                 sample_article 3 7 [], sample_article 4 8 [''strength'']] 2 3 10
       = [sample_article 1 7 [''strength''], sample_article 2 7 [''cardio''],
          sample_article 4 8 [''strength'']]
   \<and> ((\<lambda>_. 0)(7 := 2 :: nat)) (source_id (sample_article 3 7 [])) \<ge> 2
   \<and> diversify_loop 2 3 10 [sample_article 3 7 [], sample_article 4 8 [''strength'']] []
        ((\<lambda>_. 0)(7 := 2)) (\<lambda>_. 0) = [sample_article 4 8 [''strength'']]"
  using diversify_bound [of 7 "[sample_article 1 7 [''strength''], sample_article 2 7 [''cardio''],
                  sample_article 3 7 [], sample_article 4 8 [''strength'']]" 10 "''general''"
                  "(\<lambda>_. 0)(7 := 2)" "sample_article 3 7 []" "\<lambda>_. 0"
                  "[sample_article 4 8 [''strength'']]" "[]"]
  by (simp add: diversify_def sample_article_def primary_topic_def Let_def)

section \<open>The quality score\<close>

lemma nbits_numeral:
  "nbits 0 = 0"
  "nbits (Suc 0) = Suc 0"
  "nbits (numeral k) = Suc (nbits (numeral k div 2))"
  by simp_all

text \<open>\<open>point_two\<close> is the double nearest to 1/5: a 53-bit mantissa, within half a unit.\<close>

lemma point_two_nearest:
  "\<bar>valof point_two - 1 / 5\<bar> < 1 / 2 ^ 56 \<and> 2 ^ 52 \<le> fst point_two \<and> fst point_two < 2 ^ 53"
  by (simp add: valof_def point_two_def)

lemma fadd_steps:
  "fadd (0, 0) point_two = (7205759403792794, - 55)"
  "fadd (7205759403792794, - 55) point_two = (7205759403792794, - 54)"
  "fadd (7205759403792794, - 54) point_two = (5404319552844596, - 53)"
  "fadd (5404319552844596, - 53) point_two = (7205759403792794, - 53)"
  "fadd (7205759403792794, - 53) point_two = (4503599627370496, - 52)"
  by (simp_all add: fadd_def round53_def round_half_even_def point_two_def Let_def
        nbits_numeral del: nbits.simps)

text \<open>The six values a score can take: 0.0, 0.2, 0.4, 0.6000000000000001, 0.8, 1.0.\<close>

lemma float_sum_values:
  "float_sum 0 = (0, 0)"
  "float_sum (Suc 0) = (7205759403792794, - 55)"
  "float_sum 2 = (7205759403792794, - 54)"
  "float_sum 3 = (5404319552844596, - 53)"
  "float_sum 4 = (7205759403792794, - 53)"
  "float_sum 5 = (4503599627370496, - 52)"
  by (simp_all add: float_sum_def eval_nat_numeral fadd_steps del: nbits.simps)

lemma float_sum_bounds:
  assumes "k \<le> 5"
  shows "0 \<le> valof (float_sum k) \<and> valof (float_sum k) \<le> 1"
proof -
  consider "k = 0" | "k = 1" | "k = 2" | "k = 3" | "k = 4" | "k = 5"
    using assms by linarith
  then show ?thesis
    by cases (simp_all add: float_sum_values valof_def del: nbits.simps)
qed

text \<open>
  C7, with the clock among the arguments. \<open>compute_quality\<close> is a function of the five
  fields and of the clock reading used for the recency test. Its value is the float sum
  of one increment of 0.2 for each of: title longer than 20, summary longer than 100, an
  image, content longer than 500, published less than 3 days before the clock reading;
  the value lies between 0 and 1.
\<close>

theorem compute_quality_bounded:
  "compute_quality now title0 summary0 content0 image_url published =
     float_sum (length (filter id
       [length title0 > 20, length summary0 > 100,
        image_url \<noteq> None \<and> image_url \<noteq> Some [],
        content0 \<noteq> None \<and> length (the content0) > 500,
        published \<noteq> None \<and> (now - the published) div 86400 < 3]))
   \<and> 0 \<le> valof (compute_quality now title0 summary0 content0 image_url published)
   \<and> valof (compute_quality now title0 summary0 content0 image_url published) \<le> 1"
proof -
  let ?cs = "[length title0 > 20, length summary0 > 100,
        image_url \<noteq> None \<and> image_url \<noteq> Some [],
        content0 \<noteq> None \<and> length (the content0) > 500,
        published \<noteq> None \<and> (now - the published) div 86400 < 3]"
  have t: "py_truthy x \<longleftrightarrow> x \<noteq> None \<and> x \<noteq> Some []" for x
    by (cases x) auto
  have eq: "compute_quality now title0 summary0 content0 image_url published
            = float_sum (length (filter id ?cs))"
    by (simp add: compute_quality_def Let_def float_sum_def days_def t del: nbits.simps)
  have "length (filter id ?cs) \<le> 5"
    using length_filter_le [of id ?cs] by simp
  then show ?thesis
    using eq float_sum_bounds by metis
qed

theorem compute_quality_bounded_witness:
  "compute_quality 200000 ''Five compound lifts for strength'' ''short'' None
       (Some ''https://img.example/a.png'') (Some 0) = (5404319552844596, - 53)
   \<and> valof (compute_quality 200000 ''Five compound lifts for strength'' ''short'' None
       (Some ''https://img.example/a.png'') (Some 0)) = 1351079888211149 / 2251799813685248
   \<and> valof (compute_quality 200000 ''Five compound lifts for strength'' ''short'' None
       (Some ''https://img.example/a.png'') (Some 0)) \<le> 1"
proof -
  have e: "compute_quality 200000 ''Five compound lifts for strength'' ''short'' None
       (Some ''https://img.example/a.png'') (Some 0) = float_sum 3"
    using compute_quality_bounded [of 200000 "''Five compound lifts for strength''" "''short''"
      None "Some ''https://img.example/a.png''" "Some 0"]
    by (simp add: numeral_3_eq_3 del: nbits.simps)
  show ?thesis
    unfolding e by (simp add: float_sum_values valof_def del: nbits.simps)
qed

text \<open>
  The same five fields, scored at two clock readings: 0.2 on the day of publication, 0.0
  eleven days later.
\<close>

theorem compute_quality_depends_on_clock:
  "compute_quality 0 ''Squat'' ''short'' None None (Some 0) = (7205759403792794, - 55)
   \<and> compute_quality 1000000 ''Squat'' ''short'' None None (Some 0) = (0, 0)"
  by (simp add: compute_quality_def days_def fadd_steps Let_def del: nbits.simps)

section \<open>Event batches\<close>

lemma foldl_process_event_count:
  "accepted (snd (foldl (process_event ws u now) st es))
     + duplicates_skipped (snd (foldl (process_event ws u now) st es))
   = accepted (snd st) + duplicates_skipped (snd st) + length es"
  by (induction es arbitrary: st) (auto simp: process_event_def Let_def)

text \<open>
  C8. A batch of more than 100 events is answered with a validation error and the ledger
  is returned as it was; a batch of at most 100 events is answered with a response whose
  \<open>accepted\<close> and \<open>duplicates_skipped\<close> counts add up to the size of the batch.
\<close>

theorem submit_events_cap:
  "(length events > 100 \<longrightarrow>
      submit_events ws u now events l =
        (Inl (Validation_error ''events''), l))
   \<and> (length events \<le> 100 \<longrightarrow>
      (\<exists>r. fst (submit_events ws u now events l) = Inr r
           \<and> accepted r + duplicates_skipped r = length events))"
  using foldl_process_event_count
          [of ws u now "(l, \<lparr> accepted = 0, duplicates_skipped = 0 \<rparr>)" events]
  by (auto simp: submit_events_def Let_def)

theorem submit_events_cap_witness:
  "length (replicate 101 click42) > 100
   \<and> submit_events True 1 2000 (replicate 101 click42) ledger0 =
        (Inl (Validation_error ''events''), ledger0)
   \<and> length [click42, click42] \<le> 100
   \<and> fst (submit_events True 1 2000 [click42, click42] ledger0)
        = Inr \<lparr> accepted = 1, duplicates_skipped = 1 \<rparr>"
  using submit_events_cap [of "replicate 101 click42" True 1 2000 ledger0]
        submit_events_cap [of "[click42, click42]" True 1 2000 ledger0]
  by (simp add: submit_events_def process_event_def is_duplicate_def same_key_def
        ledger0_def click42_def Let_def)

section \<open>The dedup window\<close>

text \<open>
  C3. When the event log holds an event of the same user, article, event kind and
  session that is at most 5 minutes old, the submitted event adds 1 to
  \<open>duplicates_skipped\<close> and nothing to \<open>accepted\<close>, leaves every popularity score as it
  was, and is appended to the event log all the same.
\<close>

theorem duplicate_event_skipped:
  assumes "r \<in> set (user_events l)"
    and "user_id r = u" and "e_article_id (item r) = e_article_id e"
    and "event_type (item r) = event_type e" and "session_id (item r) = session_id e"
    and "now - 300 \<le> created_at r"
  shows "process_event ws u now (l, resp) e =
           (l\<lparr> user_events := user_events l @ [\<lparr> user_id = u, item = e, created_at = now \<rparr>] \<rparr>,
            resp\<lparr> duplicates_skipped := duplicates_skipped resp + 1 \<rparr>)
       \<and> article_popularity (fst (process_event ws u now (l, resp) e)) = article_popularity l
       \<and> submit_events ws u now [e] l =
           (Inr \<lparr> accepted = 0, duplicates_skipped = 1 \<rparr>,
            l\<lparr> user_events := user_events l @ [\<lparr> user_id = u, item = e, created_at = now \<rparr>] \<rparr>)"
proof -
  have "same_key ws u e r \<and> now - 300 \<le> created_at r"
    using assms by (simp add: same_key_def)
  then have d: "is_duplicate ws u now l e"
    using assms(1) unfolding is_duplicate_def list_ex_iff by blast
  show ?thesis using d by (simp add: process_event_def submit_events_def Let_def)
qed

theorem duplicate_event_skipped_witness:
  "\<lparr> user_id = 1, item = click42, created_at = 1000 \<rparr> \<in> set (user_events ledger0)
   \<and> 1060 - 300 \<le> (1000 :: int)
   \<and> fst (submit_events True 1 1060 [click42] ledger0)
       = Inr \<lparr> accepted = 0, duplicates_skipped = 1 \<rparr>
   \<and> user_events (snd (submit_events True 1 1060 [click42] ledger0))
       = [\<lparr> user_id = 1, item = click42, created_at = 1000 \<rparr>,
          \<lparr> user_id = 1, item = click42, created_at = 1060 \<rparr>]
   \<and> article_popularity (snd (submit_events True 1 1060 [click42] ledger0)) 42 = 1"
  using duplicate_event_skipped [of "\<lparr> user_id = 1, item = click42, created_at = 1000 \<rparr>"
          ledger0 1 click42 1060 True]
  by (simp add: ledger0_def)

section \<open>The ranking formula\<close>

text \<open>
  C1. The score of a candidate is the weighted sum
  \<open>0.30 similarity + 0.25 recency_decay + 0.20 preference_match + 0.15 popularity
  + 0.10 quality - 0.50 already_seen_penalty - 0.20 source_fatigue_penalty\<close>, where the
  similarity is the cosine score of the vector pool or 0, the recency decay is
  \<open>exp (-0.1 days)\<close>, the preference match is 1 when an article topic is among the user's
  top topics and 0 otherwise, and the popularity is \<open>min 1 (p / 100)\<close> for the popularity
  score \<open>p\<close> clamped at 0 from below.
\<close>

theorem score_formula:
  "score vector_score days_old article_topics user_topics pop_score quality
         already_seen_penalty source_fatigue_penalty =
       0.30 * (case vector_score of Some c \<Rightarrow> c | None \<Rightarrow> 0)
     + 0.25 * exp (- 0.1 * days_old)
     + 0.20 * (if set article_topics \<inter> set user_topics \<noteq> {} then 1 else 0)
     + 0.15 * min 1 (max 0 pop_score / 100)
     + 0.10 * quality
     - 0.50 * already_seen_penalty
     - 0.20 * source_fatigue_penalty"
proof -
  have m: "list_ex (\<lambda>t. t \<in> set user_topics) article_topics
           \<longleftrightarrow> set article_topics \<inter> set user_topics \<noteq> {}"
    by (auto simp: list_ex_iff)
  show ?thesis
    by (simp add: score_def w1_def w2_def w3_def w4_def w5_def p1_def p2_def similarity_def
          recency_decay_def preference_match_def popularity_def m)
qed

theorem score_formula_witness:
  "score None 0 [''strength''] [''strength'', ''cardio''] 250 0.6 0 0 = 0.66
   \<and> score (Some 0.5) 0 [] [''strength''] (- 3) 1 1 0 = 0"
  using score_formula [of None 0 "[''strength'']" "[''strength'', ''cardio'']" 250 "0.6" 0 0]
        score_formula [of "Some 0.5" 0 "[]" "[''strength'']" "- 3" 1 1 0]
  by simp

section \<open>Source health\<close>

lemma registry_run_disabled:
  "\<not> enabled s \<Longrightarrow> Operator_enable \<notin> set evs \<Longrightarrow> registry_run (s, fetched) evs = (s, fetched)"
  unfolding registry_run_def
proof (induction evs)
  case Nil
  then show ?case by simp
next
  case (Cons ev evs)
  then show ?case by (cases ev) auto
qed

text \<open>
  C6. For an enabled source, a failed fetch adds 1 to the failure counter and a successful
  one sets it to 0 (and stamps the fetch time); after a failure the source is still
  enabled exactly when the counter is below 5. A disabled source is left as it is, and is
  not fetched, by every sequence of scheduled runs that holds no re-enabling by the
  operator; the operator's action enables it.
\<close>

theorem source_auto_disable:
  "(enabled s \<longrightarrow>
      fetch_error_count (fst (registry_step (s, fetched) (Scheduled_run now (Fetch_failed msg))))
        = fetch_error_count s + 1
      \<and> fetch_error_count (fst (registry_step (s, fetched) (Scheduled_run now Fetch_ok))) = 0
      \<and> last_fetched_at (fst (registry_step (s, fetched) (Scheduled_run now Fetch_ok))) = Some now
      \<and> (enabled (fst (registry_step (s, fetched) (Scheduled_run now (Fetch_failed msg))))
           \<longleftrightarrow> fetch_error_count s + 1 < 5))
   \<and> (\<not> enabled s \<and> Operator_enable \<notin> set evs \<longrightarrow>
        registry_run (s, fetched) evs = (s, fetched))
   \<and> enabled (fst (registry_step (s, fetched) Operator_enable))"
  using registry_run_disabled [of s evs fetched]
  by (auto simp: record_failure_def record_success_def failure_threshold_def Let_def)

theorem source_auto_disable_witness:
  "enabled fresh_source
   \<and> registry_run (fresh_source, [])
        [Scheduled_run 1 (Fetch_failed ''timeout''), Scheduled_run 2 (Fetch_failed ''timeout''),
         Scheduled_run 3 (Fetch_failed ''timeout''), Scheduled_run 4 (Fetch_failed ''timeout'')]
      = (fresh_source\<lparr> fetch_error_count := 4, last_error := Some ''timeout'' \<rparr>, [1, 2, 3, 4])
   \<and> registry_step
        (fresh_source\<lparr> fetch_error_count := 4, last_error := Some ''timeout'' \<rparr>, [1, 2, 3, 4])
        (Scheduled_run 5 (Fetch_failed ''timeout''))
      = (fresh_source\<lparr> fetch_error_count := 5, last_error := Some ''timeout'',
                        enabled := False \<rparr>, [1, 2, 3, 4, 5])
   \<and> Operator_enable \<notin> set [Scheduled_run 6 Fetch_ok, Scheduled_run 7 (Fetch_failed ''x'')]
   \<and> registry_run
        (fresh_source\<lparr> fetch_error_count := 5, last_error := Some ''timeout'',
                        enabled := False \<rparr>, [1, 2, 3, 4, 5])
        [Scheduled_run 6 Fetch_ok, Scheduled_run 7 (Fetch_failed ''x'')]
      = (fresh_source\<lparr> fetch_error_count := 5, last_error := Some ''timeout'',
                        enabled := False \<rparr>, [1, 2, 3, 4, 5])"
  using source_auto_disable
          [of "fresh_source\<lparr> fetch_error_count := 4, last_error := Some ''timeout'' \<rparr>"
              "[1, 2, 3, 4]" 5 "''timeout''" "[]"]
        source_auto_disable
          [of "fresh_source\<lparr> fetch_error_count := 5, last_error := Some ''timeout'',
                               enabled := False \<rparr>"
              "[1, 2, 3, 4, 5]" 0 "''x''"
              "[Scheduled_run 6 Fetch_ok, Scheduled_run 7 (Fetch_failed ''x'')]"]
  by (simp add: fresh_source_def registry_run_def record_failure_def failure_threshold_def
        Let_def)

section \<open>Idempotent ingestion\<close>

lemma key_present_iff: "list_ex (\<lambda>r. f r = k) rs \<longleftrightarrow> k \<in> set (map f rs)"
  by (auto simp: list_ex_iff)

lemma raw_key_staged:
  "raw_key \<lparr> raw_source_id = s, raw_url = u, url_hash = h, title_raw = t, fetched_at = f,
             raw_status = x \<rparr> = (s, h)"
  by (simp add: raw_key_def)

text \<open>An entry adds its key to the staged keys unless the key is already there.\<close>

lemma ingest_entry_raw_keys:
  "map raw_key (raw_feed_items (fst (ingest_entry P src now acc e))) =
     (if (src, entry_hash P e) \<in> set (map raw_key (raw_feed_items (fst acc)))
      then map raw_key (raw_feed_items (fst acc))
      else map raw_key (raw_feed_items (fst acc)) @ [(src, entry_hash P e)])"
  by (simp add: ingest_entry_def Let_def key_present_iff raw_key_staged split: option.splits)

lemma ingest_entry_duplicate:
  "(src, entry_hash P e) \<in> set (map raw_key (raw_feed_items (fst acc))) \<Longrightarrow>
   ingest_entry P src now acc e =
     (fst acc, (snd acc)\<lparr> entries_fetched := entries_fetched (snd acc) + 1,
                          duplicate_entries := duplicate_entries (snd acc) + 1 \<rparr>)"
  by (simp add: ingest_entry_def Let_def key_present_iff)

lemma upsert_article_keys:
  "map article_key (upsert_article P src e en arts) =
     (if (src, entry_hash P e) \<in> set (map article_key arts)
      then map article_key arts
      else map article_key arts @ [(src, entry_hash P e)])"
  by (auto simp: upsert_article_def Let_def list_ex_iff article_key_def)

lemma ingest_entry_article_keys_distinct:
  "distinct (map article_key (news_articles (fst acc))) \<Longrightarrow>
   distinct (map article_key (news_articles (fst (ingest_entry P src now acc e))))"
  by (auto simp: ingest_entry_def Let_def upsert_article_keys split: option.splits)

lemma ingest_entry_raw_keys_distinct:
  "distinct (map raw_key (raw_feed_items (fst acc))) \<Longrightarrow>
   distinct (map raw_key (raw_feed_items (fst (ingest_entry P src now acc e))))"
  by (simp add: ingest_entry_raw_keys)

lemma foldl_ingest_distinct:
  "distinct (map raw_key (raw_feed_items (fst acc))) \<Longrightarrow>
   distinct (map article_key (news_articles (fst acc))) \<Longrightarrow>
   distinct (map raw_key (raw_feed_items (fst (foldl (ingest_entry P src now) acc es))))
   \<and> distinct (map article_key (news_articles (fst (foldl (ingest_entry P src now) acc es))))"
proof (induction es arbitrary: acc)
  case Nil
  then show ?case by simp
next
  case (Cons e es)
  show ?case
    using Cons.IH [of "ingest_entry P src now acc e"]
          ingest_entry_raw_keys_distinct [OF Cons.prems(1), of P src now e]
          ingest_entry_article_keys_distinct [OF Cons.prems(2), of P src now e]
    by simp
qed

lemma foldl_ingest_keys_mono:
  "k \<in> set (map raw_key (raw_feed_items (fst acc))) \<Longrightarrow>
   k \<in> set (map raw_key (raw_feed_items (fst (foldl (ingest_entry P src now) acc es))))"
proof (induction es arbitrary: acc)
  case Nil
  then show ?case by simp
next
  case (Cons e es)
  have "k \<in> set (map raw_key (raw_feed_items (fst (ingest_entry P src now acc e))))"
    using Cons.prems by (simp add: ingest_entry_raw_keys)
  then show ?case using Cons.IH by simp
qed

lemma foldl_ingest_keys_present:
  "e \<in> set es \<Longrightarrow>
   (src, entry_hash P e)
     \<in> set (map raw_key (raw_feed_items (fst (foldl (ingest_entry P src now) acc es))))"
proof (induction es arbitrary: acc)
  case Nil
  then show ?case by simp
next
  case (Cons x es)
  show ?case
  proof (cases "e = x")
    case True
    have "(src, entry_hash P e)
            \<in> set (map raw_key (raw_feed_items (fst (ingest_entry P src now acc x))))"
      using True by (simp add: ingest_entry_raw_keys)
    then show ?thesis
      using foldl_ingest_keys_mono [of "(src, entry_hash P e)" "ingest_entry P src now acc x"]
      by simp
  next
    case False
    then have "e \<in> set es" using Cons.prems by simp
    then show ?thesis using Cons.IH by simp
  qed
qed

text \<open>A run over entries that are all staged already changes nothing but the counters.\<close>

lemma foldl_ingest_all_duplicates:
  "\<forall>e \<in> set es. (src, entry_hash P e) \<in> set (map raw_key (raw_feed_items (fst acc))) \<Longrightarrow>
   foldl (ingest_entry P src now) acc es =
     (fst acc, (snd acc)\<lparr> entries_fetched := entries_fetched (snd acc) + length es,
                          duplicate_entries := duplicate_entries (snd acc) + length es \<rparr>)"
proof (induction es arbitrary: acc)
  case Nil
  then show ?case by simp
next
  case (Cons e es)
  have step: "ingest_entry P src now acc e =
     (fst acc, (snd acc)\<lparr> entries_fetched := entries_fetched (snd acc) + 1,
                          duplicate_entries := duplicate_entries (snd acc) + 1 \<rparr>)"
    using Cons.prems by (intro ingest_entry_duplicate) simp
  have rest: "\<forall>x \<in> set es. (src, entry_hash P x)
       \<in> set (map raw_key (raw_feed_items (fst (ingest_entry P src now acc e))))"
    using Cons.prems step by simp
  show ?case
    using Cons.IH [OF rest] step by simp
qed

lemma distinct_key_count:
  "distinct (map f xs) \<Longrightarrow> k \<in> set (map f xs) \<Longrightarrow> length (filter (\<lambda>x. f x = k) xs) = 1"
proof (induction xs)
  case Nil
  then show ?case by simp
next
  case (Cons x xs)
  show ?case
  proof (cases "f x = k")
    case True
    then have "k \<notin> set (map f xs)" using Cons.prems(1) by auto
    then have "filter (\<lambda>x. f x = k) xs = []" by (auto simp: filter_empty_conv)
    then show ?thesis using True by simp
  next
    case False
    then show ?thesis using Cons by auto
  qed
qed

text \<open>Staged rows carry the hash of their own URL.\<close>

lemma ingest_entry_hash_ok:
  "\<forall>r \<in> set (raw_feed_items (fst acc)). url_hash r = sha256 P (raw_url r) \<Longrightarrow>
   \<forall>r \<in> set (raw_feed_items (fst (ingest_entry P src now acc e))).
      url_hash r = sha256 P (raw_url r)"
  by (auto simp: ingest_entry_def Let_def entry_hash_def split: option.splits)

lemma foldl_ingest_hash_ok:
  "\<forall>r \<in> set (raw_feed_items (fst acc)). url_hash r = sha256 P (raw_url r) \<Longrightarrow>
   \<forall>r \<in> set (raw_feed_items (fst (foldl (ingest_entry P src now) acc es))).
      url_hash r = sha256 P (raw_url r)"
proof (induction es arbitrary: acc)
  case Nil
  then show ?case by simp
next
  case (Cons e es)
  show ?case
    using Cons.IH [OF ingest_entry_hash_ok [OF Cons.prems, of src now e]] by simp
qed




section \<open>Degradation of the vector pool\<close>

lemma vector_pool_subset:
  "c \<in> set (vector_pool env prof) \<Longrightarrow> cand_article c \<in> set (store env)"
  unfolding vector_pool_def
  by (cases "embed_query env (top3 prof)";
      cases "backend_search (backend env) (projr (embed_query env (top3 prof))) 50") auto

lemma distinct_ids_eq:
  "distinct (map article_id xs) \<Longrightarrow> a \<in> set xs \<Longrightarrow> b \<in> set xs \<Longrightarrow>
   article_id a = article_id b \<Longrightarrow> a = b"
  using distinct_map inj_onD by metis

lemma paginate_first_nonempty:
  "xs \<noteq> [] \<Longrightarrow> page_size \<ge> 1 \<Longrightarrow> paginate 1 page_size xs \<noteq> []"
  by (simp add: paginate_def)

lemma vector_pool_noop: "vector_pool (env\<lparr> backend := Noop_index \<rparr>) prof = []"
  by (cases "embed_query env (top3 prof)") (simp_all add: vector_pool_def backend_search_def)

lemma filter_drop_le: "length (filter P (drop m xs)) \<le> length (filter P xs)"
proof -
  have "filter P xs = filter P (take m xs) @ filter P (drop m xs)"
    by (metis append_take_drop_id filter_append)
  then show ?thesis by simp
qed

lemma filter_take_le: "length (filter P (take n xs)) \<le> length (filter P xs)"
proof -
  have "filter P xs = filter P (take n xs) @ filter P (drop n xs)"
    by (metis append_take_drop_id filter_append)
  then show ?thesis by simp
qed

lemma filter_paginate_le:
  "length (filter P (paginate page page_size xs)) \<le> length (filter P xs)"
  unfolding paginate_def
  using filter_take_le [of P "nat page_size" "drop (nat ((page - 1) * page_size)) xs"]
        filter_drop_le [of P "nat ((page - 1) * page_size)" xs]
  by linarith

lemma set_insert_by: "set (insert_by before x ys) = insert x (set ys)"
  by (induction ys) auto

lemma set_sort_by: "set (sort_by before xs) = set xs"
  unfolding sort_by_def by (induction xs) (auto simp: set_insert_by)

lemma sort_by_empty_iff: "sort_by before xs = [] \<longleftrightarrow> xs = []"
  using set_sort_by [of before xs] by (metis set_empty)

lemma in_pool_in_store: "a \<in> set (take n (sort_by before (filter P xs))) \<Longrightarrow> a \<in> set xs"
  by (auto dest!: in_set_takeD simp: set_sort_by)

lemma topic_pool_subset: "a \<in> set (topic_pool env prof) \<Longrightarrow> a \<in> set (store env)"
  unfolding topic_pool_def by (rule in_pool_in_store)

lemma trending_pool_subset: "a \<in> set (trending_pool env) \<Longrightarrow> a \<in> set (store env)"
  unfolding trending_pool_def by (rule in_pool_in_store)

lemma newest_pool_subset: "a \<in> set (newest_pool env) \<Longrightarrow> a \<in> set (store env)"
  unfolding newest_pool_def
  using in_pool_in_store [of a 20 newer "\<lambda>_. True" "store env"] by simp

lemma dedup_by_id_subset: "c \<in> set (dedup_by_id seen cs) \<Longrightarrow> c \<in> set cs"
  by (induction cs arbitrary: seen) (auto split: if_splits)

lemma dedup_by_id_keeps_id:
  "c \<in> set cs \<Longrightarrow> article_id (cand_article c) \<notin> set seen \<Longrightarrow>
   \<exists>d \<in> set (dedup_by_id seen cs). article_id (cand_article d) = article_id (cand_article c)"
proof (induction cs arbitrary: seen)
  case Nil
  then show ?case by simp
next
  case (Cons x cs)
  show ?case
  proof (cases "article_id (cand_article x) = article_id (cand_article c)")
    case True
    then have "x \<in> set (dedup_by_id seen (x # cs))"
      using Cons.prems(2) by simp
    then show ?thesis using True by blast
  next
    case False
    then have in_cs: "c \<in> set cs" using Cons.prems(1) by auto
    show ?thesis
    proof (cases "article_id (cand_article x) \<in> set seen")
      case True
      then have "dedup_by_id seen (x # cs) = dedup_by_id seen cs" by simp
      then show ?thesis using Cons.IH [OF in_cs Cons.prems(2)] by simp
    next
      case nseen: False
      have fresh: "article_id (cand_article c) \<notin> set (article_id (cand_article x) # seen)"
        using False Cons.prems(2) by auto
      have "dedup_by_id seen (x # cs) = x # dedup_by_id (article_id (cand_article x) # seen) cs"
        using nseen by simp
      then show ?thesis using Cons.IH [OF in_cs fresh] by auto
    qed
  qed
qed

lemma candidates_in_store:
  assumes "c \<in> set (candidates env prof)"
  shows "cand_article c \<in> set (store env)"
proof -
  have "c \<in> set (vector_pool env prof
        @ map (as_candidate Topic_pool) (topic_pool env prof)
        @ map (as_candidate Trending_pool) (trending_pool env)
        @ map (as_candidate Newest_pool) (newest_pool env))"
    using assms unfolding candidates_def by (rule dedup_by_id_subset)
  then consider "c \<in> set (vector_pool env prof)"
    | a where "a \<in> set (topic_pool env prof)" "c = as_candidate Topic_pool a"
    | a where "a \<in> set (trending_pool env)" "c = as_candidate Trending_pool a"
    | a where "a \<in> set (newest_pool env)" "c = as_candidate Newest_pool a"
    by auto
  then show ?thesis
  proof cases
    case 1
    then show ?thesis by (rule vector_pool_subset)
  next
    case 2
    then show ?thesis using topic_pool_subset by (simp add: as_candidate_def)
  next
    case 3
    then show ?thesis using trending_pool_subset by (simp add: as_candidate_def)
  next
    case 4
    then show ?thesis using newest_pool_subset by (simp add: as_candidate_def)
  qed
qed

lemma pool_article_is_candidate:
  assumes "distinct (map article_id (store env))"
    and "a \<in> set (topic_pool env prof) \<or> a \<in> set (trending_pool env)"
  shows "\<exists>c \<in> set (candidates env prof). cand_article c = a"
proof -
  let ?all = "vector_pool env prof
        @ map (as_candidate Topic_pool) (topic_pool env prof)
        @ map (as_candidate Trending_pool) (trending_pool env)
        @ map (as_candidate Newest_pool) (newest_pool env)"
  have art: "cand_article (as_candidate p a) = a" for p
    by (simp add: as_candidate_def)
  have "as_candidate Topic_pool a \<in> set ?all \<or> as_candidate Trending_pool a \<in> set ?all"
    using assms(2) by auto
  then have "\<exists>c. c \<in> set ?all \<and> cand_article c = a"
    using art by blast
  then obtain c where c: "c \<in> set ?all" "cand_article c = a"
    by blast
  obtain d where d: "d \<in> set (dedup_by_id [] ?all)"
      "article_id (cand_article d) = article_id (cand_article c)"
    using dedup_by_id_keeps_id [OF c(1), of "[]"] by auto
  have d_in: "d \<in> set (candidates env prof)"
    using d(1) by (simp add: candidates_def)
  have "cand_article d \<in> set (store env)"
    using d_in by (rule candidates_in_store)
  moreover have "a \<in> set (store env)"
    using assms(2) topic_pool_subset trending_pool_subset by blast
  moreover have "article_id (cand_article d) = article_id a"
    using d(2) c(2) by simp
  ultimately have "cand_article d = a"
    using distinct_ids_eq [OF assms(1)] by blast
  then show ?thesis using d_in by blast
qed

lemma filter_relaxing_nonempty:
  assumes "c \<in> set cs" and "passes env prof (last lvls) (cand_article c)" and "lvls \<noteq> []"
  shows "filter_relaxing env prof lvls cs \<noteq> []"
  using assms
proof (induction lvls)
  case Nil
  then show ?case by simp
next
  case (Cons l ls)
  show ?case
  proof (cases "ls = []")
    case True
    then have "filter (\<lambda>c. passes env prof l (cand_article c)) cs \<noteq> []"
      using Cons.prems by (auto simp: filter_empty_conv)
    then show ?thesis by (simp add: Let_def)
  next
    case False
    then have "filter_relaxing env prof ls cs \<noteq> []"
      using Cons by simp
    then show ?thesis by (simp add: Let_def)
  qed
qed

lemma filter_relaxing_subset:
  "c \<in> set (filter_relaxing env prof lvls cs) \<Longrightarrow> c \<in> set cs"
  by (induction lvls) (auto simp: Let_def split: if_splits)

lemma diversify_nonempty:
  assumes "ranked \<noteq> []"
  shows "diversify ranked 2 3 page_size \<noteq> []"
proof -
  obtain a rest where r: "ranked = a # rest"
    using assms by (cases ranked) auto
  have nf: "\<not> (\<lambda>_. 0 :: nat) (source_id a) \<ge> 2" "\<not> (\<lambda>_. 0 :: nat) (primary_topic a) \<ge> 3"
    by simp_all
  note eq = diversify_loop_admit [of 2 "\<lambda>_. 0" a 3 "\<lambda>_. 0" page_size rest "[]", OF nf]
  obtain zs where z: "diversify_loop 2 3 page_size rest ([] @ [a])
      ((\<lambda>_. 0)(source_id a := 0 + 1)) ((\<lambda>_. 0)(primary_topic a := 0 + 1)) = ([] @ [a]) @ zs"
    using diversify_loop_subseq by blast
  have "diversify ranked 2 3 page_size =
          (if int (length ([] @ [a])) \<ge> page_size then [] @ [a]
           else diversify_loop 2 3 page_size rest ([] @ [a])
                  ((\<lambda>_. 0)(source_id a := 0 + 1)) ((\<lambda>_. 0)(primary_topic a := 0 + 1)))"
    unfolding diversify_def r by (rule eq)
  then show ?thesis using z by (simp split: if_splits)
qed

lemma get_feed_backend_irrelevant:
  assumes "vector_pool env prof = []"
  shows "get_feed env prof page page_size
         = get_feed (env\<lparr> backend := Noop_index \<rparr>) prof page page_size"
proof -
  let ?env' = "env\<lparr> backend := Noop_index \<rparr>"
  have c: "candidates ?env' prof = candidates env prof"
    using assms
    by (simp add: candidates_def vector_pool_noop topic_pool_def trending_pool_def
          newest_pool_def)
  have p: "passes ?env' prof = passes env prof"
    by (intro ext) (simp add: passes_def seen_within_def)
  have f: "filter_relaxing ?env' prof lvls cs = filter_relaxing env prof lvls cs" for lvls cs
    by (induction lvls) (simp_all add: p Let_def)
  have s: "candidate_score ?env' prof = candidate_score env prof"
    by (intro ext)
       (simp add: candidate_score_def age_in_days_def seen_within_def Let_def
          split: option.splits)
  have r: "ranks_before ?env' prof = ranks_before env prof"
    by (intro ext) (simp add: ranks_before_def s)
  show ?thesis
    by (simp add: get_feed_def c f r)
qed

lemma vector_pool_degrades:
  assumes "backend env = Noop_index
         \<or> (\<exists>f. embed_query env (top3 prof) = Inl f)
         \<or> (\<exists>q f. embed_query env (top3 prof) = Inr q
                  \<and> backend_search (backend env) q 50 = Inl f)"
  shows "vector_pool env prof = []"
  using assms
  by (cases "embed_query env (top3 prof)")
     (auto simp: vector_pool_def backend_search_def)

lemma items_get_feed:
  "items (get_feed env prof page page_size) =
     paginate page page_size
       (diversify (map cand_article
          (sort_by (ranks_before env prof)
             (filter_relaxing env prof filter_levels (candidates env prof)))) 2 3
          (page * page_size))"
  by (simp add: get_feed_def Let_def)

lemma last_filter_level:
  "last filter_levels = \<lparr> freshness_days = 30, use_hidden = False, use_seen = False \<rparr>"
  by (simp add: filter_levels_def)

text \<open>
  C4, with the candidate required to survive filtering. Let the article ids of the table
  be distinct, let the vector backend be the no-op variant or let the embedding or the
  search fail, and let some article of the topic pool or of the trending pool pass the
  filter at its most relaxed level. Then the first page, of any size of at least 1, is
  not empty; the vector pool is empty and the response is the one the no-op backend gives;
  the page holds at most 2 articles of a source and at most 3 of a primary topic, all of
  them from the topic, trending and newest pools.
\<close>

theorem get_feed_degrades:
  assumes ids: "distinct (map article_id (store env))"
    and vec: "backend env = Noop_index
         \<or> (\<exists>f. embed_query env (top3 prof) = Inl f)
         \<or> (\<exists>q f. embed_query env (top3 prof) = Inr q
                  \<and> backend_search (backend env) q 50 = Inl f)"
    and pool: "a \<in> set (topic_pool env prof) \<or> a \<in> set (trending_pool env)"
    and ok: "passes env prof \<lparr> freshness_days = 30, use_hidden = False, use_seen = False \<rparr> a"
    and size: "page_size \<ge> 1"
  shows "items (get_feed env prof 1 page_size) \<noteq> []
       \<and> vector_pool env prof = []
       \<and> get_feed env prof 1 page_size
           = get_feed (env\<lparr> backend := Noop_index \<rparr>) prof 1 page_size
       \<and> length (filter (\<lambda>x. source_id x = s) (items (get_feed env prof 1 page_size))) \<le> 2
       \<and> length (filter (\<lambda>x. primary_topic x = t) (items (get_feed env prof 1 page_size))) \<le> 3
       \<and> set (items (get_feed env prof 1 page_size))
           \<subseteq> set (topic_pool env prof) \<union> set (trending_pool env) \<union> set (newest_pool env)"
proof -
  let ?filtered = "filter_relaxing env prof filter_levels (candidates env prof)"
  let ?ranked = "map cand_article (sort_by (ranks_before env prof) ?filtered)"
  let ?div = "diversify ?ranked 2 3 (1 * page_size)"
  have v: "vector_pool env prof = []"
    using vec by (rule vector_pool_degrades)
  obtain c where c: "c \<in> set (candidates env prof)" "cand_article c = a"
    using pool_article_is_candidate [OF ids pool] by blast
  have "passes env prof (last filter_levels) (cand_article c)"
    using ok c(2) by (simp add: last_filter_level)
  then have "?filtered \<noteq> []"
    using c(1) by (intro filter_relaxing_nonempty) (simp_all add: filter_levels_def)
  then have "?ranked \<noteq> []"
    by (simp add: sort_by_empty_iff)
  then have d: "?div \<noteq> []"
    by (rule diversify_nonempty)
  have nonempty: "items (get_feed env prof 1 page_size) \<noteq> []"
    unfolding items_get_feed using d size by (intro paginate_first_nonempty)
  have same: "get_feed env prof 1 page_size
           = get_feed (env\<lparr> backend := Noop_index \<rparr>) prof 1 page_size"
    using v by (rule get_feed_backend_irrelevant)
  have cap_s: "length (filter (\<lambda>x. source_id x = s) ?div) \<le> 2"
    unfolding diversify_def by (rule diversify_loop_source_cap) simp_all
  have cap_t: "length (filter (\<lambda>x. primary_topic x = t) ?div) \<le> 3"
    unfolding diversify_def by (rule diversify_loop_topic_cap) simp_all
  have page_s: "length (filter (\<lambda>x. source_id x = s) (items (get_feed env prof 1 page_size))) \<le> 2"
    unfolding items_get_feed
    using cap_s filter_paginate_le [of "\<lambda>x. source_id x = s" 1 page_size ?div] by linarith
  have page_t: "length (filter (\<lambda>x. primary_topic x = t) (items (get_feed env prof 1 page_size))) \<le> 3"
    unfolding items_get_feed
    using cap_t filter_paginate_le [of "\<lambda>x. primary_topic x = t" 1 page_size ?div] by linarith
  have from_pools: "set (items (get_feed env prof 1 page_size))
           \<subseteq> set (topic_pool env prof) \<union> set (trending_pool env) \<union> set (newest_pool env)"
  proof
    fix x assume "x \<in> set (items (get_feed env prof 1 page_size))"
    then have "x \<in> set ?div"
      unfolding items_get_feed paginate_def by (meson in_set_dropD in_set_takeD)
    moreover have "subseq ?div ?ranked"
      using diversify_loop_subseq [of 2 3 "1 * page_size" ?ranked "[]" "\<lambda>_. 0" "\<lambda>_. 0"]
      by (auto simp: diversify_def)
    ultimately have "x \<in> set ?ranked"
      using list_emb_set [of "(=)" ?div ?ranked x] by auto
    then obtain k where k: "k \<in> set ?filtered" "cand_article k = x"
      by (auto simp: set_sort_by)
    have "k \<in> set (candidates env prof)"
      using k(1) by (rule filter_relaxing_subset)
    then have "k \<in> set (dedup_by_id []
        (map (as_candidate Topic_pool) (topic_pool env prof)
        @ map (as_candidate Trending_pool) (trending_pool env)
        @ map (as_candidate Newest_pool) (newest_pool env)))"
      using v by (simp add: candidates_def)
    then have "k \<in> set (map (as_candidate Topic_pool) (topic_pool env prof)
        @ map (as_candidate Trending_pool) (trending_pool env)
        @ map (as_candidate Newest_pool) (newest_pool env))"
      by (rule dedup_by_id_subset)
    then show "x \<in> set (topic_pool env prof) \<union> set (trending_pool env) \<union> set (newest_pool env)"
      using k(2) by (auto simp: as_candidate_def)
  qed
  show ?thesis
    using nonempty v same page_s page_t from_pools by blast
qed

theorem get_feed_degrades_witness:
  "distinct (map article_id (store broken_env))
   \<and> embed_query broken_env (top3 reader) = Inr [1]
   \<and> backend_search (backend broken_env) [1] 50 = Inl Disk_exhausted
   \<and> nutrition_article ''Protein timing'' \<in> set (trending_pool broken_env)
   \<and> passes broken_env reader \<lparr> freshness_days = 30, use_hidden = False, use_seen = False \<rparr>
        (nutrition_article ''Protein timing'')
   \<and> items (get_feed broken_env reader 1 10) = [nutrition_article ''Protein timing'']
   \<and> get_feed broken_env reader 1 10
       = get_feed (broken_env\<lparr> backend := Noop_index \<rparr>) reader 1 10"
proof -
  have h1: "distinct (map article_id (store broken_env))"
    by (simp add: broken_env_def)
  have e: "embed_query broken_env (top3 reader) = Inr [1]"
    by (simp add: broken_env_def)
  have b: "backend_search (backend broken_env) [1] 50 = Inl Disk_exhausted"
    by (simp add: broken_env_def backend_search_def)
  have h2: "backend broken_env = Noop_index
         \<or> (\<exists>f. embed_query broken_env (top3 reader) = Inl f)
         \<or> (\<exists>q f. embed_query broken_env (top3 reader) = Inr q
                  \<and> backend_search (backend broken_env) q 50 = Inl f)"
    using e b by blast
  have t: "trending_pool broken_env = [nutrition_article ''Protein timing'']"
    by (simp add: trending_pool_def broken_env_def sort_by_def within_days_def
          nutrition_article_def)
  have h3: "nutrition_article ''Protein timing'' \<in> set (topic_pool broken_env reader)
          \<or> nutrition_article ''Protein timing'' \<in> set (trending_pool broken_env)"
    using t by simp
  have h4: "passes broken_env reader \<lparr> freshness_days = 30, use_hidden = False, use_seen = False \<rparr>
        (nutrition_article ''Protein timing'')"
    by (simp add: passes_def blocked_def reader_def broken_env_def nutrition_article_def
          within_days_def sublist_Cons_right)
  have h5: "(10 :: int) \<ge> 1" by simp
  note main = get_feed_degrades [OF h1 h2 h3 h4 h5, of 1 "''nutrition''"]
  have "items (get_feed broken_env reader 1 10) = [nutrition_article ''Protein timing'']"
    by (simp add: get_feed_def candidates_def vector_pool_def backend_search_def
          topic_pool_def trending_pool_def newest_pool_def sort_by_def within_days_def
          top3_def as_candidate_def filter_levels_def passes_def blocked_def seen_within_def
          diversify_def paginate_def primary_topic_def
          reader_def broken_env_def nutrition_article_def sublist_Cons_right Let_def)
  then show ?thesis using h1 e b t h4 main by simp
qed

text \<open>
  A user whose only candidate, present in the topic pool and in the trending pool, has a
  blocked keyword in its title: with the no-op backend the page is empty. And where the
  one candidate does pass the filter, the second page is empty.
\<close>

theorem empty_feed_despite_candidate:
  "backend keto_env = Noop_index
   \<and> topic_pool keto_env reader = [nutrition_article ''The keto diet'']
   \<and> trending_pool keto_env = [nutrition_article ''The keto diet'']
   \<and> items (get_feed keto_env reader 1 10) = []
   \<and> trending_pool broken_env = [nutrition_article ''Protein timing'']
   \<and> items (get_feed broken_env reader 2 10) = []"
  by (simp add: get_feed_def candidates_def vector_pool_def backend_search_def
        topic_pool_def trending_pool_def newest_pool_def sort_by_def within_days_def
        top3_def as_candidate_def filter_levels_def passes_def blocked_def seen_within_def
        diversify_def paginate_def primary_topic_def
        reader_def keto_env_def broken_env_def nutrition_article_def sublist_Cons_right
        Let_def)

end
